theory Spec2Isabelle
  imports Complex_Main
begin

section \<open>Python and numpy floats\<close>

text \<open>
  A log-likelihood is a Python float. Finite floats are idealised as reals (rounding and
  overflow are not modelled); the three special values are kept, because the selectors
  start from \<^verbatim>\<open>float("-inf")\<close> and \<^verbatim>\<open>np.mean([])\<close> is \<^verbatim>\<open>nan\<close>.
\<close>

datatype pyfloat = Fin real | PInf | NInf | NaN

fun fneg :: "pyfloat \<Rightarrow> pyfloat" where
  "fneg (Fin a) = Fin (- a)"
| "fneg PInf = NInf"
| "fneg NInf = PInf"
| "fneg NaN = NaN"

fun fadd :: "pyfloat \<Rightarrow> pyfloat \<Rightarrow> pyfloat" where
  "fadd NaN _ = NaN"
| "fadd _ NaN = NaN"
| "fadd (Fin a) (Fin b) = Fin (a + b)"
| "fadd PInf NInf = NaN"
| "fadd NInf PInf = NaN"
| "fadd PInf _ = PInf"
| "fadd _ PInf = PInf"
| "fadd NInf _ = NInf"
| "fadd _ NInf = NInf"

definition fsub :: "pyfloat \<Rightarrow> pyfloat \<Rightarrow> pyfloat" where
  "fsub a b = fadd a (fneg b)"

text \<open>The sign of a float, for the products with an infinity.\<close>

fun fsign :: "pyfloat \<Rightarrow> int option" where
  "fsign (Fin a) = Some (if a < 0 then - 1 else if a = 0 then 0 else 1)"
| "fsign PInf = Some 1"
| "fsign NInf = Some (- 1)"
| "fsign NaN = None"

fun fmul :: "pyfloat \<Rightarrow> pyfloat \<Rightarrow> pyfloat" where
  "fmul (Fin a) (Fin b) = Fin (a * b)"
| "fmul a b =
     (case (fsign a, fsign b) of
        (Some sa, Some sb) \<Rightarrow>
          (if sa * sb = 0 then NaN else if sa * sb < 0 then NInf else PInf)
      | _ \<Rightarrow> NaN)"

text \<open>\<^verbatim>\<open>a > b\<close> on floats: every comparison with \<^verbatim>\<open>nan\<close> is false.\<close>

fun fgt :: "pyfloat \<Rightarrow> pyfloat \<Rightarrow> bool" where
  "fgt NaN _ = False"
| "fgt _ NaN = False"
| "fgt (Fin a) (Fin b) = (b < a)"
| "fgt _ PInf = False"
| "fgt NInf _ = False"
| "fgt PInf _ = True"
| "fgt _ NInf = True"

text \<open>
  \<^verbatim>\<open>np.mean(xs)\<close> of a Python list: the sum divided by the count. On the empty list
  numpy divides 0.0 by 0 and returns \<^verbatim>\<open>nan\<close> (with a RuntimeWarning, which is printed or
  ignored, not raised, unless the process has turned warnings into errors).
\<close>

fun fdiv_count :: "pyfloat \<Rightarrow> nat \<Rightarrow> pyfloat" where
  "fdiv_count (Fin a) n =
     (if n = 0 then (if a = 0 then NaN else if a < 0 then NInf else PInf)
      else Fin (a / real n))"
| "fdiv_count x n = x"

definition np_sum :: "pyfloat list \<Rightarrow> pyfloat" where
  "np_sum xs = foldl fadd (Fin 0) xs"

definition np_mean :: "pyfloat list \<Rightarrow> pyfloat" where
  "np_mean xs = fdiv_count (np_sum xs) (length xs)"

text \<open>
  \<^verbatim>\<open>np.argmin\<close> and \<^verbatim>\<open>np.argmax\<close>: the index of the first smallest (largest) entry; a
  \<^verbatim>\<open>nan\<close> entry wins over every number and ends the scan. Both raise ValueError on an
  empty list.
\<close>

fun argmin_scan :: "nat \<Rightarrow> pyfloat \<Rightarrow> nat \<Rightarrow> pyfloat list \<Rightarrow> nat" where
  "argmin_scan bi bv i [] = bi"
| "argmin_scan bi bv i (x # xs) =
     (if bv = NaN then bi
      else if x = NaN \<or> fgt bv x then argmin_scan i x (Suc i) xs
      else argmin_scan bi bv (Suc i) xs)"

fun argmax_scan :: "nat \<Rightarrow> pyfloat \<Rightarrow> nat \<Rightarrow> pyfloat list \<Rightarrow> nat" where
  "argmax_scan bi bv i [] = bi"
| "argmax_scan bi bv i (x # xs) =
     (if bv = NaN then bi
      else if x = NaN \<or> fgt x bv then argmax_scan i x (Suc i) xs
      else argmax_scan bi bv (Suc i) xs)"

datatype py_error = KeyError | ValueError | IndexError | UnboundLocalError

fun np_argmin :: "pyfloat list \<Rightarrow> py_error + nat" where
  "np_argmin [] = Inl ValueError"
| "np_argmin (x # xs) = Inr (argmin_scan 0 x 1 xs)"

fun np_argmax :: "pyfloat list \<Rightarrow> py_error + nat" where
  "np_argmax [] = Inl ValueError"
| "np_argmax (x # xs) = Inr (argmax_scan 0 x 1 xs)"

text \<open>\<^verbatim>\<open>math.log(n)\<close> of a row count: ValueError (math domain error) at 0.\<close>

definition math_log :: "nat \<Rightarrow> py_error + real" where
  "math_log n = (if n = 0 then Inl ValueError else Inr (ln (real n)))"

section \<open>The selector object and the process state\<close>

text \<open>
  A feature matrix is its list of rows. The two catalogs are dictionaries from a word to
  its instance sequences, and to the pair of its concatenated matrix and the row counts
  of its instances; a dictionary is kept as an association list in insertion order,
  which is the order \<^verbatim>\<open>items()\<close> walks.
\<close>

type_synonym matrix = "real list list"
type_synonym Xlengths = "matrix \<times> nat list"

record selector =
  words :: "(string \<times> matrix list) list"
  hwords :: "(string \<times> Xlengths) list"
  sequences :: "matrix list"
  X :: matrix
  lengths :: "nat list"
  this_word :: string
  n_constant :: int
  min_n_components :: int
  max_n_components :: int
  random_state :: int
  verbose :: bool

text \<open>\<^verbatim>\<open>ModelSelector.__init__\<close>: both subscripts raise KeyError on a word that is missing.\<close>

definition ModelSelector_init ::
  "(string \<times> matrix list) list \<Rightarrow> (string \<times> Xlengths) list \<Rightarrow> string \<Rightarrow>
   int \<Rightarrow> int \<Rightarrow> int \<Rightarrow> int \<Rightarrow> bool \<Rightarrow> py_error + selector" where
  "ModelSelector_init all_word_sequences all_word_Xlengths word nc lo hi seed vb =
     (case map_of all_word_sequences word of
        None \<Rightarrow> Inl KeyError
      | Some seqs \<Rightarrow>
          (case map_of all_word_Xlengths word of
             None \<Rightarrow> Inl KeyError
           | Some (x, ls) \<Rightarrow>
               Inr \<lparr>words = all_word_sequences, hwords = all_word_Xlengths,
                    sequences = seqs, X = x, lengths = ls, this_word = word,
                    n_constant = nc, min_n_components = lo, max_n_components = hi,
                    random_state = seed, verbose = vb\<rparr>))"

text \<open>
  The external HMM library. \<open>fit n seed x ls\<close> is
  \<^verbatim>\<open>GaussianHMM(n_components=n, covariance_type="diag", n_iter=1000, random_state=seed,
  verbose=False).fit(x, ls)\<close>, \<open>None\<close> when it raises; \<open>score m x ls\<close> is
  \<^verbatim>\<open>m.score(x, ls)\<close>, \<open>None\<close> when it raises; \<open>n_features m\<close> is the attribute the
  fitted model carries. The library is a parameter of every selector: nothing is assumed
  of it but that it is a function of its arguments.
\<close>

record 'm hmmlearn =
  fit :: "int \<Rightarrow> int \<Rightarrow> matrix \<Rightarrow> nat list \<Rightarrow> 'm option"
  score :: "'m \<Rightarrow> matrix \<Rightarrow> nat list \<Rightarrow> pyfloat option"
  n_features :: "'m \<Rightarrow> int"

text \<open>
  What a call of \<^verbatim>\<open>select()\<close> can touch: the selector object (with the two catalogs it
  references), the process-wide list of warning filters, the lines printed, and the
  log of the calls made to the trainer, the scorer and the fold splitter, in order.
\<close>

datatype category = Warning | DeprecationWarning

datatype line = ModelCreated string int | FailureOn string int

datatype call = Fit int | Score | KFold nat

record world =
  self :: selector
  warn_filters :: "category list"
  stdout :: "line list"
  calls :: "call list"

text \<open>
  \<^verbatim>\<open>warnings.filterwarnings("ignore", category=c)\<close> puts the filter first in the list,
  removing an equal one. Only "ignore" filters are ever installed here, so a filter is
  its category.
\<close>

definition filterwarnings :: "category \<Rightarrow> world \<Rightarrow> world" where
  "filterwarnings c w = w\<lparr>warn_filters := c # removeAll c (warn_filters w)\<rparr>"

definition log_call :: "call \<Rightarrow> world \<Rightarrow> world" where
  "log_call c w = w\<lparr>calls := calls w @ [c]\<rparr>"

definition print_line :: "line \<Rightarrow> world \<Rightarrow> world" where
  "print_line l w = w\<lparr>stdout := stdout w @ [l]\<rparr>"

section \<open>ModelSelector.base_model and SelectorConstant\<close>

text \<open>The result \<open>None\<close> is Python's \<^verbatim>\<open>None\<close>: the bare \<^verbatim>\<open>except\<close> absorbs the failure.\<close>

definition base_model :: "'m hmmlearn \<Rightarrow> int \<Rightarrow> world \<Rightarrow> 'm option \<times> world" where
  "base_model env num_states w =
     (let w1 = log_call (Fit num_states) (filterwarnings DeprecationWarning w) in
      case fit env num_states (random_state (self w1)) (X (self w1)) (lengths (self w1)) of
        Some hmm_model \<Rightarrow>
          (Some hmm_model,
           if verbose (self w1) then print_line (ModelCreated (this_word (self w1)) num_states) w1
           else w1)
      | None \<Rightarrow>
          (None,
           if verbose (self w1) then print_line (FailureOn (this_word (self w1)) num_states) w1
           else w1))"

definition SelectorConstant_select :: "'m hmmlearn \<Rightarrow> world \<Rightarrow> 'm option \<times> world" where
  "SelectorConstant_select env w = base_model env (n_constant (self w)) w"

section \<open>SelectorBIC\<close>

text \<open>
  One pass of the loop body for the candidate \<open>states\<close>. Every failure inside the
  \<^verbatim>\<open>try\<close> leaves \<open>bic_scores\<close> as it was: \<^verbatim>\<open>None.score\<close> (AttributeError) when
  \<open>base_model\<close> gave no model, a raising scorer, and \<^verbatim>\<open>math.log(0)\<close>.
\<close>

definition bic_body ::
  "'m hmmlearn \<Rightarrow> pyfloat list \<times> world \<Rightarrow> int \<Rightarrow> pyfloat list \<times> world" where
  "bic_body env acc states =
     (case acc of (bic_scores, w) \<Rightarrow>
      (case base_model env states w of
         (None, w1) \<Rightarrow> (bic_scores, w1)
       | (Some model_bic, w1) \<Rightarrow>
           (let w2 = log_call Score w1 in
            case score env model_bic (X (self w2)) (lengths (self w2)) of
              None \<Rightarrow> (bic_scores, w2)
            | Some log_likelihood \<Rightarrow>
                (let p = states ^ 2 + 2 * states * n_features env model_bic - 1 in
                 case math_log (length (X (self w2))) of
                   Inl e \<Rightarrow> (bic_scores, w2)
                 | Inr logN \<Rightarrow>
                     (bic_scores @
                        [fadd (fmul (Fin (- 2)) log_likelihood)
                              (fmul (Fin (real_of_int p)) (Fin logN))],
                      w2)))))"

definition bic_loop ::
  "'m hmmlearn \<Rightarrow> int list \<Rightarrow> pyfloat list \<times> world \<Rightarrow> pyfloat list \<times> world" where
  "bic_loop env ns acc = foldl (bic_body env) acc ns"

text \<open>
  The last two lines: \<^verbatim>\<open>best_state = np.argmin(bic_scores) if bic_scores else
  self.n_constant\<close> and \<^verbatim>\<open>return self.base_model(best_state+2)\<close>.
\<close>

definition SelectorBIC_select :: "'m hmmlearn \<Rightarrow> world \<Rightarrow> 'm option \<times> world" where
  "SelectorBIC_select env w =
     (case bic_loop env [min_n_components (self w) .. max_n_components (self w)]
             ([], filterwarnings DeprecationWarning w) of
        (bic_scores, w1) \<Rightarrow>
          (let best_state =
                 (case np_argmin bic_scores of
                    Inr i \<Rightarrow> int i
                  | Inl e \<Rightarrow> n_constant (self w1))
           in base_model env (best_state + 2) w1))"

section \<open>SelectorDIC\<close>

text \<open>
  The inner loop over \<^verbatim>\<open>self.hwords.items()\<close>: the model is scored on every word but
  \<open>this_word\<close>; a raising scorer ends the whole candidate (\<open>None\<close>), since the only
  \<^verbatim>\<open>try\<close> is the one around the candidate.
\<close>

fun other_words_loop ::
  "'m hmmlearn \<Rightarrow> 'm \<Rightarrow> string \<Rightarrow> (string \<times> Xlengths) list \<Rightarrow> pyfloat list \<Rightarrow> world \<Rightarrow>
   pyfloat list option \<times> world" where
  "other_words_loop env model tw [] other_words_scores w = (Some other_words_scores, w)"
| "other_words_loop env model tw ((word, (x, ls)) # rest) other_words_scores w =
     (if word \<noteq> tw then
        (case score env model x ls of
           None \<Rightarrow> (None, log_call Score w)
         | Some sc \<Rightarrow>
             other_words_loop env model tw rest (other_words_scores @ [sc]) (log_call Score w))
      else other_words_loop env model tw rest other_words_scores w)"

definition dic_body ::
  "'m hmmlearn \<Rightarrow> pyfloat list \<times> world \<Rightarrow> int \<Rightarrow> pyfloat list \<times> world" where
  "dic_body env acc states =
     (case acc of (dic_scores, w) \<Rightarrow>
      (case base_model env states w of
         (None, w1) \<Rightarrow> (dic_scores, w1)
       | (Some model, w1) \<Rightarrow>
           (case other_words_loop env model (this_word (self w1)) (hwords (self w1)) [] w1 of
              (None, w2) \<Rightarrow> (dic_scores, w2)
            | (Some other_words_scores, w2) \<Rightarrow>
                (let w3 = log_call Score w2 in
                 case score env model (X (self w3)) (lengths (self w3)) of
                   None \<Rightarrow> (dic_scores, w3)
                 | Some sc \<Rightarrow>
                     (dic_scores @ [fsub sc (np_mean other_words_scores)], w3)))))"

definition dic_loop ::
  "'m hmmlearn \<Rightarrow> int list \<Rightarrow> pyfloat list \<times> world \<Rightarrow> pyfloat list \<times> world" where
  "dic_loop env ns acc = foldl (dic_body env) acc ns"

definition SelectorDIC_select :: "'m hmmlearn \<Rightarrow> world \<Rightarrow> 'm option \<times> world" where
  "SelectorDIC_select env w =
     (case dic_loop env [min_n_components (self w) .. max_n_components (self w)]
             ([], filterwarnings DeprecationWarning w) of
        (dic_scores, w1) \<Rightarrow>
          (let best_state =
                 (case np_argmax dic_scores of
                    Inr i \<Rightarrow> int i
                  | Inl e \<Rightarrow> n_constant (self w1))
           in base_model env (best_state + 2) w1))"

section \<open>SelectorCV\<close>

text \<open>
  \<^verbatim>\<open>sklearn.model_selection.KFold(n_splits=k).split(seqs)\<close> without shuffling: the
  indices \<open>0..<n\<close> are cut into \<open>k\<close> consecutive test folds, the first \<open>n mod k\<close> of
  them one longer; the training indices of a fold are all the others. The constructor
  raises ValueError for \<open>k \<le> 1\<close>, the split for \<open>k > n\<close>.
\<close>

definition fold_sizes :: "nat \<Rightarrow> nat \<Rightarrow> nat list" where
  "fold_sizes n_splits n_samples =
     map (\<lambda>i. n_samples div n_splits + (if i < n_samples mod n_splits then 1 else 0))
       [0..<n_splits]"

fun kfold_folds :: "nat list \<Rightarrow> nat \<Rightarrow> nat list \<Rightarrow> (nat list \<times> nat list) list" where
  "kfold_folds indices current [] = []"
| "kfold_folds indices current (fold_size # rest) =
     (let test_index = take fold_size (drop current indices);
          train_index = filter (\<lambda>i. i \<notin> set test_index) indices
      in (train_index, test_index) # kfold_folds indices (current + fold_size) rest)"

definition KFold_split :: "nat \<Rightarrow> nat \<Rightarrow> py_error + (nat list \<times> nat list) list" where
  "KFold_split n_splits n_samples =
     (if n_splits \<le> 1 then Inl ValueError
      else if n_samples < n_splits then Inl ValueError
      else Inr (kfold_folds [0..<n_samples] 0 (fold_sizes n_splits n_samples)))"

text \<open>
  Modelled from the spec: \<^verbatim>\<open>asl_utils.combine_sequences\<close> is imported by the selectors
  and is not among the sources. The spec's SequenceCombiner: given a list of instance
  indices and a word's sequences, it concatenates the selected instances' feature rows
  into one matrix and gives the per-instance row counts. An index out of range raises
  IndexError.
\<close>

definition combine_sequences :: "nat list \<Rightarrow> matrix list \<Rightarrow> py_error + Xlengths" where
  "combine_sequences split_index_list seqs =
     (if list_all (\<lambda>idx. idx < length seqs) split_index_list
      then Inr (concat (map (\<lambda>idx. seqs ! idx) split_index_list),
                map (\<lambda>idx. length (seqs ! idx)) split_index_list)
      else Inl IndexError)"

text \<open>
  The local variables of \<^verbatim>\<open>SelectorCV.select\<close> that live across iterations.
  \<open>cur_model\<close> is \<^verbatim>\<open>_model\<close>: unbound (\<open>None\<close>) until a fit succeeds, and keeping its
  last value when a later fit raises.
\<close>

record 'm cv_vars =
  best_score :: pyfloat
  best_model :: "'m option"
  cur_model :: "'m option"

text \<open>
  The \<^verbatim>\<open>if np.mean(log_likelihood) > best_score\<close> after the \<^verbatim>\<open>try\<close>; reading an unbound
  \<^verbatim>\<open>_model\<close> there would raise UnboundLocalError, outside every \<^verbatim>\<open>try\<close>.
\<close>

definition cv_compare ::
  "pyfloat list \<Rightarrow> 'm cv_vars \<Rightarrow> world \<Rightarrow> (py_error + 'm cv_vars) \<times> world" where
  "cv_compare log_likelihood v w =
     (if fgt (np_mean log_likelihood) (best_score v) then
        (case cur_model v of
           None \<Rightarrow> (Inl UnboundLocalError, w)
         | Some m \<Rightarrow>
             (Inr (v\<lparr>best_score := np_mean log_likelihood, best_model := Some m\<rparr>), w))
      else (Inr v, w))"

text \<open>One fold: \<open>log_likelihood\<close> starts empty in every fold.\<close>

definition cv_fold ::
  "'m hmmlearn \<Rightarrow> int \<Rightarrow> nat list \<times> nat list \<Rightarrow> 'm cv_vars \<Rightarrow> world \<Rightarrow>
   (py_error + 'm cv_vars) \<times> world" where
  "cv_fold env n split v w =
     (case split of (train_x, test_x) \<Rightarrow>
      (case combine_sequences train_x (sequences (self w)) of
         Inl e \<Rightarrow> (Inl e, w)
       | Inr (X_train, Y_train) \<Rightarrow>
           (case combine_sequences test_x (sequences (self w)) of
              Inl e \<Rightarrow> (Inl e, w)
            | Inr (X_test, Y_test) \<Rightarrow>
                (let w1 = log_call (Fit n) w in
                 case fit env n (random_state (self w1)) X_train Y_train of
                   None \<Rightarrow> cv_compare [] v w1
                 | Some m \<Rightarrow>
                     (let v1 = v\<lparr>cur_model := Some m\<rparr>; w2 = log_call Score w1 in
                      case score env m X_test Y_test of
                        None \<Rightarrow> cv_compare [] v1 w2
                      | Some sc \<Rightarrow> cv_compare [sc] v1 w2)))))"

fun cv_folds ::
  "'m hmmlearn \<Rightarrow> int \<Rightarrow> (nat list \<times> nat list) list \<Rightarrow> 'm cv_vars \<Rightarrow> world \<Rightarrow>
   (py_error + 'm cv_vars) \<times> world" where
  "cv_folds env n [] v w = (Inr v, w)"
| "cv_folds env n (split # rest) v w =
     (case cv_fold env n split v w of
        (Inl e, w1) \<Rightarrow> (Inl e, w1)
      | (Inr v1, w1) \<Rightarrow> cv_folds env n rest v1 w1)"

text \<open>The body of the loop over \<open>n\<close>.\<close>

definition cv_candidate ::
  "'m hmmlearn \<Rightarrow> int \<Rightarrow> 'm cv_vars \<Rightarrow> world \<Rightarrow> (py_error + 'm cv_vars) \<times> world" where
  "cv_candidate env n v w =
     (if length (sequences (self w)) \<le> 1 then (Inr v, w)
      else
        (let n_splits = min 3 (length (sequences (self w))); w1 = log_call (KFold n_splits) w in
         case KFold_split n_splits (length (sequences (self w1))) of
           Inl e \<Rightarrow> (Inl e, w1)
         | Inr splits \<Rightarrow> cv_folds env n splits v w1))"

fun cv_loop ::
  "'m hmmlearn \<Rightarrow> int list \<Rightarrow> 'm cv_vars \<Rightarrow> world \<Rightarrow> (py_error + 'm cv_vars) \<times> world" where
  "cv_loop env [] v w = (Inr v, w)"
| "cv_loop env (n # ns) v w =
     (case cv_candidate env n v w of
        (Inl e, w1) \<Rightarrow> (Inl e, w1)
      | (Inr v1, w1) \<Rightarrow> cv_loop env ns v1 w1)"

definition cv_init :: "'m cv_vars" where
  "cv_init = \<lparr>best_score = NInf, best_model = None, cur_model = None\<rparr>"

definition SelectorCV_select ::
  "'m hmmlearn \<Rightarrow> world \<Rightarrow> (py_error + 'm option) \<times> world" where
  "SelectorCV_select env w =
     (case cv_loop env [min_n_components (self w) .. max_n_components (self w)] cv_init
             (filterwarnings Warning w) of
        (Inl e, w1) \<Rightarrow> (Inl e, w1)
      | (Inr v, w1) \<Rightarrow>
          (case best_model v of
             None \<Rightarrow> (case base_model env (n_constant (self w1)) w1 of (r, w2) \<Rightarrow> (Inr r, w2))
           | Some m \<Rightarrow> (Inr (Some m), w1)))"

section \<open>The criteria as the specification words them\<close>

text \<open>
  The specification's BIC of the candidate \<open>n\<close>, for a selector \<open>s\<close>: with \<open>L\<close> the
  log-likelihood of the word's full data under the \<open>n\<close>-state model, \<open>d\<close> the feature
  dimensionality and \<open>N\<close> the number of rows of the word's matrix, it is
  \<open>-2 L + p ln N\<close> where \<open>p = n\<^sup>2 + 2 n d - 1\<close>. There is no BIC (\<open>None\<close>) when the
  candidate cannot be trained or scored.
\<close>

definition BIC :: "'m hmmlearn \<Rightarrow> selector \<Rightarrow> int \<Rightarrow> pyfloat option" where
  "BIC env s n =
     (case fit env n (random_state s) (X s) (lengths s) of
        None \<Rightarrow> None
      | Some m \<Rightarrow>
          (case score env m (X s) (lengths s) of
             None \<Rightarrow> None
           | Some L \<Rightarrow>
               (if length (X s) = 0 then None
                else Some (fadd (fmul (Fin (- 2)) L)
                       (Fin (real_of_int (n ^ 2 + 2 * n * n_features env m - 1) *
                             ln (real (length (X s)))))))))"

text \<open>
  The specification's DIC: \<open>L_self - L_others\<close>, the second the arithmetic mean of the
  log-likelihoods of every other word's full data under the same model. \<open>those\<close> is
  \<open>None\<close> as soon as one other word cannot be scored.
\<close>

definition other_words :: "selector \<Rightarrow> (string \<times> Xlengths) list" where
  "other_words s = filter (\<lambda>entry. fst entry \<noteq> this_word s) (hwords s)"

definition DIC :: "'m hmmlearn \<Rightarrow> selector \<Rightarrow> int \<Rightarrow> pyfloat option" where
  "DIC env s n =
     (case fit env n (random_state s) (X s) (lengths s) of
        None \<Rightarrow> None
      | Some m \<Rightarrow>
          (case those (map (\<lambda>entry. score env m (fst (snd entry)) (snd (snd entry)))
                        (other_words s)) of
             None \<Rightarrow> None
           | Some L_others \<Rightarrow>
               (case score env m (X s) (lengths s) of
                  None \<Rightarrow> None
                | Some L_self \<Rightarrow> Some (fsub L_self (np_mean L_others)))))"

text \<open>
  The folds of a word for cross-validation, and what one fold of the candidate \<open>n\<close>
  yields when its training and its scoring both succeed: the fitted model and its
  log-likelihood on the held-out instances.
\<close>

definition cv_splits :: "selector \<Rightarrow> (nat list \<times> nat list) list" where
  "cv_splits s =
     (case KFold_split (min 3 (length (sequences s))) (length (sequences s)) of
        Inl e \<Rightarrow> []
      | Inr splits \<Rightarrow> splits)"

definition fold_result ::
  "'m hmmlearn \<Rightarrow> selector \<Rightarrow> int \<Rightarrow> nat list \<times> nat list \<Rightarrow> ('m \<times> pyfloat) option" where
  "fold_result env s n split =
     (case combine_sequences (fst split) (sequences s) of
        Inl e \<Rightarrow> None
      | Inr train \<Rightarrow>
          (case combine_sequences (snd split) (sequences s) of
             Inl e \<Rightarrow> None
           | Inr test \<Rightarrow>
               (case fit env n (random_state s) (fst train) (snd train) of
                  None \<Rightarrow> None
                | Some m \<Rightarrow>
                    (case score env m (fst test) (snd test) of
                       None \<Rightarrow> None
                     | Some sc \<Rightarrow> Some (m, sc)))))"

text \<open>
  The average the specification asks of SelectorCV for a candidate: the mean of the
  scores of the folds that succeeded, and no score at all when none did.
\<close>

definition cv_average :: "'m hmmlearn \<Rightarrow> selector \<Rightarrow> int \<Rightarrow> pyfloat option" where
  "cv_average env s n =
     (case List.map_filter (\<lambda>split. map_option snd (fold_result env s n split)) (cv_splits s) of
        [] \<Rightarrow> None
      | sc # scs \<Rightarrow> Some (np_mean (sc # scs)))"

section \<open>A trainer to run the selectors on\<close>

text \<open>
  A stand-in for the HMM library, for concrete runs: training with \<open>n\<close> states succeeds
  where \<open>trains n\<close> holds and gives a model that remembers \<open>n\<close> and its training data;
  the log-likelihood of data under a model is read from the table \<open>loglik\<close>.
\<close>

record stub_hmm =
  n_components :: int
  trained_on :: matrix

definition stub_env ::
  "(int \<Rightarrow> bool) \<Rightarrow> (int \<Rightarrow> matrix \<Rightarrow> pyfloat option) \<Rightarrow> stub_hmm hmmlearn" where
  "stub_env trains loglik =
     \<lparr>fit = (\<lambda>n seed x ls.
              if trains n then Some \<lparr>n_components = n, trained_on = x\<rparr> else None),
      score = (\<lambda>m x ls. loglik (n_components m) x),
      n_features = (\<lambda>m. case trained_on m of [] \<Rightarrow> 0 | row # rows \<Rightarrow> int (length row))\<rparr>"

text \<open>
  Two words with one feature. JOHN has one instance of one row in \<open>one_instance\<close> and
  two instances of one row each in \<open>two_instances\<close>; MARY is the other word.
\<close>

definition one_instance :: "int \<Rightarrow> int \<Rightarrow> int \<Rightarrow> selector" where
  "one_instance nc lo hi =
     \<lparr>words = [(''JOHN'', [[[0]]]), (''MARY'', [[[1]]])],
      hwords = [(''JOHN'', ([[0]], [1])), (''MARY'', ([[1]], [1]))],
      sequences = [[[0]]], X = [[0]], lengths = [1], this_word = ''JOHN'',
      n_constant = nc, min_n_components = lo, max_n_components = hi,
      random_state = 14, verbose = False\<rparr>"

definition two_instances :: "int \<Rightarrow> int \<Rightarrow> int \<Rightarrow> selector" where
  "two_instances nc lo hi =
     \<lparr>words = [(''JOHN'', [[[0]], [[1]]])],
      hwords = [(''JOHN'', ([[0], [1]], [1, 1]))],
      sequences = [[[0]], [[1]]], X = [[0], [1]], lengths = [1, 1], this_word = ''JOHN'',
      n_constant = nc, min_n_components = lo, max_n_components = hi,
      random_state = 14, verbose = False\<rparr>"

definition fresh :: "selector \<Rightarrow> world" where
  "fresh s = \<lparr>self = s, warn_filters = [], stdout = [], calls = []\<rparr>"

text \<open>Log-likelihood tables: of JOHN's own row under the \<open>n\<close>-state model, and of a fold.\<close>

definition peak_at_4 :: "int \<Rightarrow> matrix \<Rightarrow> pyfloat option" where
  "peak_at_4 n x =
     (if x = [[0]] then Some (Fin (if n = 3 then - 5 else if n = 4 then - 1 else - 3))
      else Some (Fin 0))"

definition rising :: "int \<Rightarrow> matrix \<Rightarrow> pyfloat option" where
  "rising n x = Some (Fin (real_of_int n))"

definition one_good_fold :: "int \<Rightarrow> matrix \<Rightarrow> pyfloat option" where
  "one_good_fold n x =
     (if n = 2 then (if x = [[0]] then Some (Fin 10) else Some (Fin (- 100)))
      else Some (Fin 0))"

section \<open>What a run reads and leaves\<close>

text \<open>
  The selector object is read and never written: each step below gives the value it
  computes as a function of the selector, and shows the selector unchanged after it.
\<close>

lemma self_filterwarnings [simp]: "self (filterwarnings c w) = self w"
  by (simp add: filterwarnings_def)

lemma self_log_call [simp]: "self (log_call c w) = self w"
  by (simp add: log_call_def)

lemma self_print_line [simp]: "self (print_line l w) = self w"
  by (simp add: print_line_def)

lemma base_model_self [simp]: "self (snd (base_model env n w)) = self w"
  by (simp add: base_model_def Let_def split: option.splits)

lemma base_model_fst:
  "fst (base_model env n w) = fit env n (random_state (self w)) (X (self w)) (lengths (self w))"
  by (simp add: base_model_def Let_def split: option.splits)

lemma base_model_cases:
  obtains r w1 where "base_model env n w = (r, w1)" and "self w1 = self w"
    and "r = fit env n (random_state (self w)) (X (self w)) (lengths (self w))"
proof -
  obtain r w1 where b: "base_model env n w = (r, w1)"
    by (cases "base_model env n w")
  have "self w1 = self w"
    using base_model_self [of env n w] b by simp
  moreover have "r = fit env n (random_state (self w)) (X (self w)) (lengths (self w))"
    using base_model_fst [of env n w] b by simp
  ultimately show thesis using b that by blast
qed

subsection \<open>SelectorBIC: the recorded scores\<close>

lemma bic_body_self: "self (snd (bic_body env (xs, w) n)) = self w"
proof -
  obtain r w1 where "base_model env n w = (r, w1)" and "self w1 = self w"
    by (rule base_model_cases)
  then show ?thesis
    by (simp add: bic_body_def Let_def split: option.splits sum.splits)
qed

lemma bic_body_fst:
  "fst (bic_body env (xs, w) n) = xs @ (case BIC env (self w) n of None \<Rightarrow> [] | Some b \<Rightarrow> [b])"
proof -
  obtain r w1 where "base_model env n w = (r, w1)" and "self w1 = self w"
    and "r = fit env n (random_state (self w)) (X (self w)) (lengths (self w))"
    by (rule base_model_cases)
  then show ?thesis
    by (simp add: bic_body_def BIC_def math_log_def Let_def split: option.splits)
qed

lemma bic_loop_run:
  "fst (bic_loop env ns (xs, w)) = xs @ List.map_filter (BIC env (self w)) ns \<and>
   self (snd (bic_loop env ns (xs, w))) = self w"
proof (induction ns arbitrary: xs w)
  case Nil
  show ?case by (simp add: bic_loop_def)
next
  case (Cons n ns)
  obtain ys w' where step: "bic_body env (xs, w) n = (ys, w')"
    by (cases "bic_body env (xs, w) n")
  have s: "self w' = self w"
    using bic_body_self [of env xs w n] step by simp
  have y: "ys = xs @ (case BIC env (self w) n of None \<Rightarrow> [] | Some b \<Rightarrow> [b])"
    using bic_body_fst [of env xs w n] step by simp
  have unroll: "bic_loop env (n # ns) (xs, w) = bic_loop env ns (ys, w')"
    by (simp add: bic_loop_def step)
  show ?case
    using Cons.IH [of ys w'] by (simp add: unroll y s split: option.splits)
qed

subsection \<open>SelectorDIC: the recorded scores\<close>

lemma map_option_append_Nil [simp]: "map_option ((@) []) x = x"
  by (cases x) simp_all

lemma other_words_loop_self:
  "self (snd (other_words_loop env m tw items acc w)) = self w"
  by (induction env m tw items acc w rule: other_words_loop.induct)
     (simp_all split: option.splits)

lemma other_words_loop_fst:
  "fst (other_words_loop env m tw items acc w) =
     map_option ((@) acc)
       (those (map (\<lambda>entry. score env m (fst (snd entry)) (snd (snd entry)))
                 (filter (\<lambda>entry. fst entry \<noteq> tw) items)))"
proof (induction env m tw items acc w rule: other_words_loop.induct)
  case (1 env model tw other_words_scores w)
  show ?case by simp
next
  case (2 env model tw word x ls rest other_words_scores w)
  then show ?case
    by (simp add: option.map_comp comp_def split: option.splits)
qed

lemma dic_body_self: "self (snd (dic_body env (xs, w) n)) = self w"
proof -
  obtain r w1 where b: "base_model env n w = (r, w1)" and s: "self w1 = self w"
    by (rule base_model_cases)
  show ?thesis
  proof (cases r)
    case None
    then show ?thesis by (simp add: dic_body_def b s)
  next
    case (Some m)
    obtain o2 w2 where l: "other_words_loop env m (this_word (self w1)) (hwords (self w1)) [] w1 = (o2, w2)"
      by (cases "other_words_loop env m (this_word (self w1)) (hwords (self w1)) [] w1")
    have s2: "self w2 = self w"
      using other_words_loop_self [of env m "this_word (self w1)" "hwords (self w1)" "[]" w1] l s
      by simp
    show ?thesis
      by (simp add: dic_body_def b Some l s2 Let_def split: option.splits)
  qed
qed

lemma dic_body_fst:
  "fst (dic_body env (xs, w) n) = xs @ (case DIC env (self w) n of None \<Rightarrow> [] | Some b \<Rightarrow> [b])"
proof -
  obtain r w1 where b: "base_model env n w = (r, w1)" and s: "self w1 = self w"
    and r: "r = fit env n (random_state (self w)) (X (self w)) (lengths (self w))"
    by (rule base_model_cases)
  show ?thesis
  proof (cases r)
    case None
    then show ?thesis using r by (simp add: dic_body_def DIC_def b)
  next
    case (Some m)
    obtain o2 w2 where l: "other_words_loop env m (this_word (self w1)) (hwords (self w1)) [] w1 = (o2, w2)"
      by (cases "other_words_loop env m (this_word (self w1)) (hwords (self w1)) [] w1")
    have s2: "self w2 = self w"
      using other_words_loop_self [of env m "this_word (self w1)" "hwords (self w1)" "[]" w1] l s
      by simp
    have o2: "o2 = those (map (\<lambda>entry. score env m (fst (snd entry)) (snd (snd entry)))
                 (other_words (self w)))"
      using other_words_loop_fst [of env m "this_word (self w1)" "hwords (self w1)" "[]" w1] l s
      by (simp add: other_words_def)
    have f: "fit env n (random_state (self w)) (X (self w)) (lengths (self w)) = Some m"
      using r Some by simp
    show ?thesis
      by (simp add: dic_body_def DIC_def b Some l s2 o2 [symmetric] f Let_def split: option.splits)
  qed
qed

lemma dic_loop_run:
  "fst (dic_loop env ns (xs, w)) = xs @ List.map_filter (DIC env (self w)) ns \<and>
   self (snd (dic_loop env ns (xs, w))) = self w"
proof (induction ns arbitrary: xs w)
  case Nil
  show ?case by (simp add: dic_loop_def)
next
  case (Cons n ns)
  obtain ys w' where step: "dic_body env (xs, w) n = (ys, w')"
    by (cases "dic_body env (xs, w) n")
  have s: "self w' = self w"
    using dic_body_self [of env xs w n] step by simp
  have y: "ys = xs @ (case DIC env (self w) n of None \<Rightarrow> [] | Some b \<Rightarrow> [b])"
    using dic_body_fst [of env xs w n] step by simp
  have unroll: "dic_loop env (n # ns) (xs, w) = dic_loop env ns (ys, w')"
    by (simp add: dic_loop_def step)
  show ?case
    using Cons.IH [of ys w'] by (simp add: unroll y s split: option.splits)
qed

subsection \<open>SelectorCV: one fold\<close>

lemma np_mean_Nil [simp]: "np_mean [] = NaN"
  by (simp add: np_mean_def np_sum_def)

lemma np_mean_single [simp]: "np_mean [x] = x"
  by (cases x) (simp_all add: np_mean_def np_sum_def)

lemma fgt_NInf: "fgt a b \<Longrightarrow> fgt a NInf"
  by (cases a; cases b) simp_all

lemma cv_compare_Nil [simp]: "cv_compare [] v w = (Inr v, w)"
  by (simp add: cv_compare_def)

lemma cv_compare_single:
  "cur_model v = Some m \<Longrightarrow>
   cv_compare [sc] v w =
     (Inr (if fgt sc (best_score v) then v\<lparr>best_score := sc, best_model := Some m\<rparr> else v), w)"
  by (simp add: cv_compare_def)

lemma cv_compare_self [simp]: "self (snd (cv_compare ll v w)) = self w"
  by (simp add: cv_compare_def split: option.splits)

lemma cv_compare_fst: "fst (cv_compare ll v w) = fst (cv_compare ll v w')"
  by (simp add: cv_compare_def split: option.splits)

lemma combine_sequences_ok:
  "set idxs \<subseteq> {..<length seqs} \<Longrightarrow>
   combine_sequences idxs seqs =
     Inr (concat (map (\<lambda>idx. seqs ! idx) idxs), map (\<lambda>idx. length (seqs ! idx)) idxs)"
  by (auto simp add: combine_sequences_def list_all_iff)

lemma cv_fold_self [simp]: "self (snd (cv_fold env n split v w)) = self w"
  by (cases split)
     (simp add: cv_fold_def Let_def cv_compare_single split: sum.splits prod.splits option.splits)

lemma cv_fold_fst:
  assumes "sequences (self w) = sequences (self w')"
    and "random_state (self w) = random_state (self w')"
  shows "fst (cv_fold env n split v w) = fst (cv_fold env n split v w')"
  using assms
  by (cases split)
     (simp add: cv_fold_def Let_def cv_compare_single split: sum.splits prod.splits option.splits)

lemma cv_fold_run:
  assumes tr: "set (fst split) \<subseteq> {..<length (sequences (self w))}"
    and te: "set (snd split) \<subseteq> {..<length (sequences (self w))}"
  shows "\<exists>v'. fst (cv_fold env n split v w) = Inr v' \<and>
           (best_model v' = best_model v \<or>
            (\<exists>m sc. fold_result env (self w) n split = Some (m, sc) \<and> fgt sc NInf \<and>
                    best_model v' = Some m))"
proof -
  obtain train_x test_x where sp: "split = (train_x, test_x)"
    by (cases split)
  note c1 = combine_sequences_ok [OF tr] and c2 = combine_sequences_ok [OF te]
  show ?thesis
  proof (cases "fold_result env (self w) n split")
    case None
    then show ?thesis
      using c1 c2
      by (auto simp add: sp cv_fold_def fold_result_def Let_def cv_compare_single
            split: option.splits)
  next
    case (Some r)
    obtain m sc where r: "r = (m, sc)" by (cases r)
    show ?thesis
      using Some c1 c2
      by (auto simp add: r sp cv_fold_def fold_result_def Let_def cv_compare_single
            split: option.splits dest: fgt_NInf)
  qed
qed

subsection \<open>SelectorCV: the folds of a word\<close>

lemma kfold_folds_indices:
  "split \<in> set (kfold_folds indices current sizes) \<Longrightarrow>
   set (fst split) \<subseteq> set indices \<and> set (snd split) \<subseteq> set indices"
proof (induction sizes arbitrary: current)
  case Nil
  then show ?case by simp
next
  case (Cons fold_size rest)
  have "set (take fold_size (drop current indices)) \<subseteq> set indices"
    using set_take_subset set_drop_subset by fast
  with Cons show ?case
    by (auto simp add: Let_def)
qed

lemma KFold_split_indices:
  assumes "KFold_split n_splits n_samples = Inr splits" and "split \<in> set splits"
  shows "set (fst split) \<subseteq> {..<n_samples} \<and> set (snd split) \<subseteq> {..<n_samples}"
proof -
  have "splits = kfold_folds [0..<n_samples] 0 (fold_sizes n_splits n_samples)"
    using assms(1) by (simp add: KFold_split_def split: if_splits)
  with assms(2) kfold_folds_indices [of split "[0..<n_samples]" 0 "fold_sizes n_splits n_samples"]
  show ?thesis by auto
qed

lemma KFold_split_ok:
  "2 \<le> n_samples \<Longrightarrow>
   KFold_split (min 3 n_samples) n_samples =
     Inr (kfold_folds [0..<n_samples] 0 (fold_sizes (min 3 n_samples) n_samples))"
  by (simp add: KFold_split_def)

lemma cv_splits_indices:
  "split \<in> set (cv_splits s) \<Longrightarrow>
   set (fst split) \<subseteq> {..<length (sequences s)} \<and> set (snd split) \<subseteq> {..<length (sequences s)}"
proof (cases "KFold_split (min 3 (length (sequences s))) (length (sequences s))")
  case (Inl e)
  assume "split \<in> set (cv_splits s)"
  with Inl show ?thesis by (simp add: cv_splits_def)
next
  case (Inr splits)
  assume "split \<in> set (cv_splits s)"
  with Inr have "split \<in> set splits" by (simp add: cv_splits_def)
  with Inr show ?thesis by (rule KFold_split_indices)
qed

subsection \<open>SelectorCV: the loops\<close>

lemma cv_folds_self [simp]: "self (snd (cv_folds env n splits v w)) = self w"
proof (induction splits arbitrary: v w)
  case Nil
  show ?case by simp
next
  case (Cons split rest)
  obtain r w1 where st: "cv_fold env n split v w = (r, w1)"
    by (cases "cv_fold env n split v w")
  have "self w1 = self w"
    using cv_fold_self [of env n split v w] st by simp
  with Cons show ?case
    by (simp add: st split: sum.splits)
qed

lemma cv_folds_fst:
  assumes "sequences (self w) = sequences (self w')"
    and "random_state (self w) = random_state (self w')"
  shows "fst (cv_folds env n splits v w) = fst (cv_folds env n splits v w')"
  using assms
proof (induction splits arbitrary: v w w')
  case Nil
  show ?case by simp
next
  case (Cons split rest)
  obtain r w1 where st: "cv_fold env n split v w = (r, w1)"
    by (cases "cv_fold env n split v w")
  obtain r' w1' where st': "cv_fold env n split v w' = (r', w1')"
    by (cases "cv_fold env n split v w'")
  have rr: "r' = r"
    using cv_fold_fst [OF Cons.prems, of env n split v] st st' by simp
  have s1: "self w1 = self w" and s1': "self w1' = self w'"
    using cv_fold_self [of env n split v w] cv_fold_self [of env n split v w'] st st' by simp_all
  show ?case
  proof (cases r)
    case (Inl e)
    then show ?thesis by (simp add: st st' rr)
  next
    case (Inr v1)
    have "fst (cv_folds env n rest v1 w1) = fst (cv_folds env n rest v1 w1')"
      by (rule Cons.IH) (simp_all add: s1 s1' Cons.prems)
    then show ?thesis by (simp add: st st' rr Inr)
  qed
qed

lemma cv_folds_run:
  assumes "\<forall>split \<in> set splits.
             set (fst split) \<subseteq> {..<length (sequences (self w))} \<and>
             set (snd split) \<subseteq> {..<length (sequences (self w))}"
  shows "\<exists>v'. fst (cv_folds env n splits v w) = Inr v' \<and>
           (best_model v' = best_model v \<or>
            (\<exists>split \<in> set splits. \<exists>m sc.
                fold_result env (self w) n split = Some (m, sc) \<and> fgt sc NInf \<and>
                best_model v' = Some m))"
  using assms
proof (induction splits arbitrary: v w)
  case Nil
  show ?case by simp
next
  case (Cons split rest)
  obtain r w1 where st: "cv_fold env n split v w = (r, w1)"
    by (cases "cv_fold env n split v w")
  have s1: "self w1 = self w"
    using cv_fold_self [of env n split v w] st by simp
  obtain v1 where r: "r = Inr v1"
    and v1: "best_model v1 = best_model v \<or>
      (\<exists>m sc. fold_result env (self w) n split = Some (m, sc) \<and> fgt sc NInf \<and>
               best_model v1 = Some m)"
    using cv_fold_run [of split w env n v] Cons.prems st by auto
  obtain v' where run: "fst (cv_folds env n rest v1 w1) = Inr v'"
    and v': "best_model v' = best_model v1 \<or>
      (\<exists>split \<in> set rest. \<exists>m sc.
          fold_result env (self w1) n split = Some (m, sc) \<and> fgt sc NInf \<and>
          best_model v' = Some m)"
    using Cons.IH [of w1 v1] Cons.prems s1 by auto
  have "fst (cv_folds env n (split # rest) v w) = Inr v'"
    by (simp add: st r run)
  moreover have "best_model v' = best_model v \<or>
      (\<exists>split \<in> set (split # rest). \<exists>m sc.
          fold_result env (self w) n split = Some (m, sc) \<and> fgt sc NInf \<and>
          best_model v' = Some m)"
    using v1 v' s1 by auto
  ultimately show ?case by blast
qed

lemma cv_candidate_self [simp]: "self (snd (cv_candidate env n v w)) = self w"
  by (simp add: cv_candidate_def Let_def split: sum.splits)

lemma cv_candidate_fst:
  assumes "sequences (self w) = sequences (self w')"
    and "random_state (self w) = random_state (self w')"
  shows "fst (cv_candidate env n v w) = fst (cv_candidate env n v w')"
  using assms cv_folds_fst [of "log_call (KFold (min 3 (length (sequences (self w))))) w"
      "log_call (KFold (min 3 (length (sequences (self w'))))) w'" env n _ v]
  by (simp add: cv_candidate_def Let_def split: sum.splits)

lemma cv_candidate_skip:
  "length (sequences (self w)) \<le> 1 \<Longrightarrow> cv_candidate env n v w = (Inr v, w)"
  by (simp add: cv_candidate_def)

lemma cv_candidate_run:
  "\<exists>v'. fst (cv_candidate env n v w) = Inr v' \<and>
     (best_model v' = best_model v \<or>
      (\<exists>split \<in> set (cv_splits (self w)). \<exists>m sc.
          fold_result env (self w) n split = Some (m, sc) \<and> fgt sc NInf \<and>
          best_model v' = Some m))"
proof (cases "length (sequences (self w)) \<le> 1")
  case True
  then show ?thesis by (simp add: cv_candidate_skip)
next
  case False
  let ?k = "min 3 (length (sequences (self w)))"
  let ?splits = "kfold_folds [0..<length (sequences (self w))] 0
                   (fold_sizes ?k (length (sequences (self w))))"
  have ok: "KFold_split ?k (length (sequences (self w))) = Inr ?splits"
    using False KFold_split_ok [of "length (sequences (self w))"] by simp
  have sp: "cv_splits (self w) = ?splits"
    by (simp add: cv_splits_def ok)
  have c: "cv_candidate env n v w = cv_folds env n ?splits v (log_call (KFold ?k) w)"
    using False by (simp add: cv_candidate_def Let_def ok)
  have "\<forall>split \<in> set ?splits.
          set (fst split) \<subseteq> {..<length (sequences (self (log_call (KFold ?k) w)))} \<and>
          set (snd split) \<subseteq> {..<length (sequences (self (log_call (KFold ?k) w)))}"
    using cv_splits_indices [of _ "self w"] by (simp add: sp)
  from cv_folds_run [OF this, of env n v] show ?thesis
    by (simp add: c sp)
qed

lemma cv_loop_self [simp]: "self (snd (cv_loop env ns v w)) = self w"
proof (induction ns arbitrary: v w)
  case Nil
  show ?case by simp
next
  case (Cons n ns)
  obtain r w1 where st: "cv_candidate env n v w = (r, w1)"
    by (cases "cv_candidate env n v w")
  have "self w1 = self w"
    using cv_candidate_self [of env n v w] st by simp
  with Cons show ?case
    by (simp add: st split: sum.splits)
qed

lemma cv_loop_fst:
  assumes "sequences (self w) = sequences (self w')"
    and "random_state (self w) = random_state (self w')"
  shows "fst (cv_loop env ns v w) = fst (cv_loop env ns v w')"
  using assms
proof (induction ns arbitrary: v w w')
  case Nil
  show ?case by simp
next
  case (Cons n ns)
  obtain r w1 where st: "cv_candidate env n v w = (r, w1)"
    by (cases "cv_candidate env n v w")
  obtain r' w1' where st': "cv_candidate env n v w' = (r', w1')"
    by (cases "cv_candidate env n v w'")
  have rr: "r' = r"
    using cv_candidate_fst [OF Cons.prems, of env n v] st st' by simp
  have s1: "self w1 = self w" and s1': "self w1' = self w'"
    using cv_candidate_self [of env n v w] cv_candidate_self [of env n v w'] st st'
    by simp_all
  show ?case
  proof (cases r)
    case (Inl e)
    then show ?thesis by (simp add: st st' rr)
  next
    case (Inr v1)
    have "fst (cv_loop env ns v1 w1) = fst (cv_loop env ns v1 w1')"
      by (rule Cons.IH) (simp_all add: s1 s1' Cons.prems)
    then show ?thesis by (simp add: st st' rr Inr)
  qed
qed

lemma cv_loop_skip:
  "length (sequences (self w)) \<le> 1 \<Longrightarrow> cv_loop env ns v w = (Inr v, w)"
  by (induction ns) (simp_all add: cv_candidate_skip)

lemma cv_loop_run:
  "\<exists>v'. fst (cv_loop env ns v w) = Inr v' \<and>
     (best_model v' = best_model v \<or>
      (\<exists>n \<in> set ns. \<exists>split \<in> set (cv_splits (self w)). \<exists>m sc.
          fold_result env (self w) n split = Some (m, sc) \<and> fgt sc NInf \<and>
          best_model v' = Some m))"
proof (induction ns arbitrary: v w)
  case Nil
  show ?case by simp
next
  case (Cons n ns)
  obtain r w1 where st: "cv_candidate env n v w = (r, w1)"
    by (cases "cv_candidate env n v w")
  have s1: "self w1 = self w"
    using cv_candidate_self [of env n v w] st by simp
  obtain v1 where r: "r = Inr v1"
    and v1: "best_model v1 = best_model v \<or>
      (\<exists>split \<in> set (cv_splits (self w)). \<exists>m sc.
          fold_result env (self w) n split = Some (m, sc) \<and> fgt sc NInf \<and>
          best_model v1 = Some m)"
    using cv_candidate_run [of env n v w] st by auto
  obtain v' where run: "fst (cv_loop env ns v1 w1) = Inr v'"
    and v': "best_model v' = best_model v1 \<or>
      (\<exists>n \<in> set ns. \<exists>split \<in> set (cv_splits (self w1)). \<exists>m sc.
          fold_result env (self w1) n split = Some (m, sc) \<and> fgt sc NInf \<and>
          best_model v' = Some m)"
    using Cons.IH [of v1 w1] by blast
  have "fst (cv_loop env (n # ns) v w) = Inr v'"
    by (simp add: st r run)
  moreover have "best_model v' = best_model v \<or>
      (\<exists>n \<in> set (n # ns). \<exists>split \<in> set (cv_splits (self w)). \<exists>m sc.
          fold_result env (self w) n split = Some (m, sc) \<and> fgt sc NInf \<and>
          best_model v' = Some m)"
    using v1 v' s1 by auto
  ultimately show ?case by blast
qed

subsection \<open>What each selector returns\<close>

lemma SelectorConstant_run:
  "fst (SelectorConstant_select env w) =
     fit env (n_constant (self w)) (random_state (self w)) (X (self w)) (lengths (self w)) \<and>
   self (snd (SelectorConstant_select env w)) = self w"
  by (simp add: SelectorConstant_select_def base_model_fst)

lemma SelectorBIC_run:
  "fst (SelectorBIC_select env w) =
     fit env
       ((case np_argmin (List.map_filter (BIC env (self w))
                 [min_n_components (self w) .. max_n_components (self w)]) of
           Inr i \<Rightarrow> int i
         | Inl e \<Rightarrow> n_constant (self w)) + 2)
       (random_state (self w)) (X (self w)) (lengths (self w)) \<and>
   self (snd (SelectorBIC_select env w)) = self w"
proof -
  let ?ns = "[min_n_components (self w) .. max_n_components (self w)]"
  obtain scores w1 where l: "bic_loop env ?ns ([], filterwarnings DeprecationWarning w) = (scores, w1)"
    by (cases "bic_loop env ?ns ([], filterwarnings DeprecationWarning w)")
  have sc: "scores = List.map_filter (BIC env (self w)) ?ns" and s1: "self w1 = self w"
    using bic_loop_run [of env ?ns "[]" "filterwarnings DeprecationWarning w"] l by simp_all
  show ?thesis
    by (simp add: SelectorBIC_select_def l Let_def base_model_fst s1 sc cong: sum.case_cong)
qed

lemma SelectorDIC_run:
  "fst (SelectorDIC_select env w) =
     fit env
       ((case np_argmax (List.map_filter (DIC env (self w))
                 [min_n_components (self w) .. max_n_components (self w)]) of
           Inr i \<Rightarrow> int i
         | Inl e \<Rightarrow> n_constant (self w)) + 2)
       (random_state (self w)) (X (self w)) (lengths (self w)) \<and>
   self (snd (SelectorDIC_select env w)) = self w"
proof -
  let ?ns = "[min_n_components (self w) .. max_n_components (self w)]"
  obtain scores w1 where l: "dic_loop env ?ns ([], filterwarnings DeprecationWarning w) = (scores, w1)"
    by (cases "dic_loop env ?ns ([], filterwarnings DeprecationWarning w)")
  have sc: "scores = List.map_filter (DIC env (self w)) ?ns" and s1: "self w1 = self w"
    using dic_loop_run [of env ?ns "[]" "filterwarnings DeprecationWarning w"] l by simp_all
  show ?thesis
    by (simp add: SelectorDIC_select_def l Let_def base_model_fst s1 sc cong: sum.case_cong)
qed

lemma SelectorCV_self: "self (snd (SelectorCV_select env w)) = self w"
proof -
  let ?ns = "[min_n_components (self w) .. max_n_components (self w)]"
  obtain r w1 where l: "cv_loop env ?ns cv_init (filterwarnings Warning w) = (r, w1)"
    by (cases "cv_loop env ?ns cv_init (filterwarnings Warning w)")
  have s1: "self w1 = self w"
    using cv_loop_self [of env ?ns cv_init "filterwarnings Warning w"] l by simp
  obtain r2 w2 where b: "base_model env (n_constant (self w)) w1 = (r2, w2)"
    by (cases "base_model env (n_constant (self w)) w1")
  have s2: "self w2 = self w"
    using base_model_self [of env "n_constant (self w)" w1] b s1 by simp
  show ?thesis
    by (simp add: SelectorCV_select_def l s1 b s2 split: sum.splits option.splits)
qed

lemma SelectorCV_run:
  "\<exists>v. fst (cv_loop env [min_n_components (self w) .. max_n_components (self w)] cv_init
              (filterwarnings Warning w)) = Inr v \<and>
       fst (SelectorCV_select env w) =
         Inr (case best_model v of
                None \<Rightarrow> fit env (n_constant (self w)) (random_state (self w)) (X (self w))
                          (lengths (self w))
              | Some m \<Rightarrow> Some m) \<and>
       (best_model v = None \<or>
        (\<exists>n \<in> set [min_n_components (self w) .. max_n_components (self w)].
           \<exists>split \<in> set (cv_splits (self w)). \<exists>m sc.
             fold_result env (self w) n split = Some (m, sc) \<and> fgt sc NInf \<and>
             best_model v = Some m))"
proof -
  let ?ns = "[min_n_components (self w) .. max_n_components (self w)]"
  obtain r w1 where l: "cv_loop env ?ns cv_init (filterwarnings Warning w) = (r, w1)"
    by (cases "cv_loop env ?ns cv_init (filterwarnings Warning w)")
  have s1: "self w1 = self w"
    using cv_loop_self [of env ?ns cv_init "filterwarnings Warning w"] l by simp
  obtain v where fv: "fst (cv_loop env ?ns cv_init (filterwarnings Warning w)) = Inr v"
    and v: "best_model v = best_model (cv_init :: 'a cv_vars) \<or>
       (\<exists>n \<in> set ?ns. \<exists>split \<in> set (cv_splits (self (filterwarnings Warning w))). \<exists>m sc.
          fold_result env (self (filterwarnings Warning w)) n split = Some (m, sc) \<and>
          fgt sc NInf \<and> best_model v = Some m)"
    using cv_loop_run [of env ?ns cv_init "filterwarnings Warning w"] by blast
  have r: "r = Inr v"
    using fv l by simp
  obtain r2 w2 where b: "base_model env (n_constant (self w)) w1 = (r2, w2)"
    by (cases "base_model env (n_constant (self w)) w1")
  have r2: "r2 = fit env (n_constant (self w)) (random_state (self w)) (X (self w)) (lengths (self w))"
    using base_model_fst [of env "n_constant (self w)" w1] b s1 by simp
  have "fst (SelectorCV_select env w) =
         Inr (case best_model v of
                None \<Rightarrow> fit env (n_constant (self w)) (random_state (self w)) (X (self w))
                          (lengths (self w))
              | Some m \<Rightarrow> Some m)"
    by (simp add: SelectorCV_select_def l r s1 b r2 split: option.splits)
  moreover have "best_model v = None \<or>
        (\<exists>n \<in> set ?ns. \<exists>split \<in> set (cv_splits (self w)). \<exists>m sc.
             fold_result env (self w) n split = Some (m, sc) \<and> fgt sc NInf \<and>
             best_model v = Some m)"
    using v by (simp add: cv_init_def)
  ultimately show ?thesis
    using fv by blast
qed

lemma np_sum_Fin: "foldl fadd (Fin a) (map Fin xs) = Fin (a + sum_list xs)"
  by (induction xs arbitrary: a) (simp_all add: add.assoc)

lemma np_mean_Fin:
  "xs \<noteq> [] \<Longrightarrow> np_mean (map Fin xs) = Fin (sum_list xs / real (length xs))"
  by (simp add: np_mean_def np_sum_def np_sum_Fin)

lemma those_None:
  "None \<in> set ys \<Longrightarrow> those ys = None"
  by (induction ys) (auto split: option.splits)

lemma DIC_skip:
  assumes "fit env n (random_state s) (X s) (lengths s) = Some m"
    and "entry \<in> set (other_words s)"
    and "score env m (fst (snd entry)) (snd (snd entry)) = None"
  shows "DIC env s n = None"
proof -
  have "None \<in> set (map (\<lambda>entry. score env m (fst (snd entry)) (snd (snd entry))) (other_words s))"
    using assms(2,3) by force
  then have "those (map (\<lambda>entry. score env m (fst (snd entry)) (snd (snd entry))) (other_words s)) = None"
    by (rule those_None)
  then show ?thesis
    by (simp add: DIC_def assms(1))
qed

text \<open>The definitions a concrete run unfolds.\<close>

lemmas run_defs = SelectorBIC_select_def SelectorDIC_select_def bic_loop_def bic_body_def
  dic_loop_def dic_body_def base_model_def stub_env_def fresh_def one_instance_def
  two_instances_def filterwarnings_def log_call_def print_line_def math_log_def np_mean_def
  np_sum_def fsub_def Let_def

lemma calls_base_model: "calls (snd (base_model env n w)) = calls w @ [Fit n]"
  by (simp add: base_model_def Let_def log_call_def filterwarnings_def print_line_def
        split: option.splits)

lemma SelectorCV_skip:
  assumes "length (sequences (self w)) \<le> 1"
  shows "SelectorCV_select env w =
     (case base_model env (n_constant (self w)) (filterwarnings Warning w) of
        (r, w') \<Rightarrow> (Inr r, w'))"
proof -
  have "cv_loop env [min_n_components (self w) .. max_n_components (self w)] cv_init
          (filterwarnings Warning w) = (Inr cv_init, filterwarnings Warning w)"
    using assms by (simp add: cv_loop_skip)
  then show ?thesis
    by (simp add: SelectorCV_select_def cv_init_def)
qed

lemma SelectorCV_fst_cong:
  assumes "self w' = (self w)\<lparr>verbose := b\<rparr>"
  shows "fst (SelectorCV_select env w) = fst (SelectorCV_select env w')"
proof -
  let ?ns = "[min_n_components (self w) .. max_n_components (self w)]"
  obtain r w1 where l: "cv_loop env ?ns cv_init (filterwarnings Warning w) = (r, w1)"
    by (cases "cv_loop env ?ns cv_init (filterwarnings Warning w)")
  obtain r' w1' where l': "cv_loop env ?ns cv_init (filterwarnings Warning w') = (r', w1')"
    by (cases "cv_loop env ?ns cv_init (filterwarnings Warning w')")
  have s1: "self w1 = self w" and s1': "self w1' = self w'"
    using cv_loop_self [of env ?ns cv_init "filterwarnings Warning w"]
      cv_loop_self [of env ?ns cv_init "filterwarnings Warning w'"] l l' by simp_all
  have "fst (cv_loop env ?ns cv_init (filterwarnings Warning w)) =
        fst (cv_loop env ?ns cv_init (filterwarnings Warning w'))"
    by (rule cv_loop_fst) (simp_all add: assms)
  then have rr: "r' = r" using l l' by simp
  have ns: "[min_n_components (self w') .. max_n_components (self w')] = ?ns"
    by (simp add: assms)
  obtain r2 w2 where b: "base_model env (n_constant (self w1)) w1 = (r2, w2)"
    by (cases "base_model env (n_constant (self w1)) w1")
  obtain r2' w2' where b': "base_model env (n_constant (self w1')) w1' = (r2', w2')"
    by (cases "base_model env (n_constant (self w1')) w1'")
  have "fst (base_model env (n_constant (self w1)) w1) =
        fst (base_model env (n_constant (self w1')) w1')"
    by (simp add: base_model_fst s1 s1' assms)
  then have rr2: "r2' = r2" using b b' by simp
  show ?thesis
    by (simp add: SelectorCV_select_def ns l l' rr b b' rr2 split: sum.splits option.splits)
qed

lemma BIC_verbose [simp]: "BIC env (s\<lparr>verbose := b\<rparr>) = BIC env s"
  by (rule ext) (simp add: BIC_def split: option.splits)

lemma other_words_verbose [simp]: "other_words (s\<lparr>verbose := b\<rparr>) = other_words s"
  by (simp add: other_words_def)

lemma DIC_verbose [simp]: "DIC env (s\<lparr>verbose := b\<rparr>) = DIC env s"
  by (rule ext) (simp add: DIC_def split: option.splits)

lemma ModelSelector_init_verbose:
  assumes "ModelSelector_init ws hws word nc lo hi seed vb1 = Inr s1"
    and "ModelSelector_init ws hws word nc lo hi seed vb2 = Inr s2"
  shows "s2 = s1\<lparr>verbose := vb2\<rparr>"
  using assms
  by (auto simp add: ModelSelector_init_def split: option.splits)

lemma SelectorCV_never_raises: "\<exists>r. fst (SelectorCV_select env w) = Inr r"
  using SelectorCV_run [of env w] by blast

subsection \<open>What a run writes outside the selector\<close>

lemma base_model_writes:
  "warn_filters (snd (base_model env n w)) =
     DeprecationWarning # removeAll DeprecationWarning (warn_filters w) \<and>
   stdout (snd (base_model env n w)) =
     (if verbose (self w)
      then stdout w @ [case fit env n (random_state (self w)) (X (self w)) (lengths (self w)) of
                         Some m \<Rightarrow> ModelCreated (this_word (self w)) n
                       | None \<Rightarrow> FailureOn (this_word (self w)) n]
      else stdout w)"
  by (simp add: base_model_def Let_def log_call_def filterwarnings_def print_line_def
        split: option.splits)

lemma base_model_quiet:
  "\<not> verbose (self w) \<Longrightarrow> stdout (snd (base_model env n w)) = stdout w"
  by (simp add: base_model_writes)

lemma stdout_log_call [simp]: "stdout (log_call c w) = stdout w"
  by (simp add: log_call_def)

lemma stdout_filterwarnings [simp]: "stdout (filterwarnings c w) = stdout w"
  by (simp add: filterwarnings_def)

lemma warn_filters_log_call [simp]: "warn_filters (log_call c w) = warn_filters w"
  by (simp add: log_call_def)

lemma bic_body_quiet:
  assumes "\<not> verbose (self w)"
  shows "stdout (snd (bic_body env (xs, w) n)) = stdout w"
proof -
  obtain r w1 where b: "base_model env n w = (r, w1)"
    by (cases "base_model env n w")
  have "stdout w1 = stdout w"
    using base_model_quiet [OF assms, of env n] b by simp
  then show ?thesis
    by (simp add: bic_body_def b Let_def split: option.splits sum.splits)
qed

lemma bic_loop_quiet:
  "\<not> verbose (self w) \<Longrightarrow> stdout (snd (bic_loop env ns (xs, w))) = stdout w"
proof (induction ns arbitrary: xs w)
  case Nil
  show ?case by (simp add: bic_loop_def)
next
  case (Cons n ns)
  obtain ys w' where step: "bic_body env (xs, w) n = (ys, w')"
    by (cases "bic_body env (xs, w) n")
  have s: "self w' = self w"
    using bic_body_self [of env xs w n] step by simp
  have o: "stdout w' = stdout w"
    using bic_body_quiet [OF Cons.prems, of env xs n] step by simp
  have unroll: "bic_loop env (n # ns) (xs, w) = bic_loop env ns (ys, w')"
    by (simp add: bic_loop_def step)
  show ?case
    using Cons.IH [of w' ys] Cons.prems by (simp add: unroll s o)
qed

lemma other_words_loop_stdout:
  "stdout (snd (other_words_loop env m tw items acc w)) = stdout w"
  by (induction env m tw items acc w rule: other_words_loop.induct)
     (simp_all split: option.splits)

lemma dic_body_quiet:
  assumes "\<not> verbose (self w)"
  shows "stdout (snd (dic_body env (xs, w) n)) = stdout w"
proof -
  obtain r w1 where b: "base_model env n w = (r, w1)"
    by (cases "base_model env n w")
  have o1: "stdout w1 = stdout w"
    using base_model_quiet [OF assms, of env n] b by simp
  show ?thesis
  proof (cases r)
    case None
    then show ?thesis by (simp add: dic_body_def b o1)
  next
    case (Some m)
    obtain o2 w2 where l:
      "other_words_loop env m (this_word (self w1)) (hwords (self w1)) [] w1 = (o2, w2)"
      by (cases "other_words_loop env m (this_word (self w1)) (hwords (self w1)) [] w1")
    have "stdout w2 = stdout w"
      using other_words_loop_stdout [of env m "this_word (self w1)" "hwords (self w1)" "[]" w1]
        l o1 by simp
    then show ?thesis
      by (simp add: dic_body_def b Some l Let_def split: option.splits)
  qed
qed

lemma dic_loop_quiet:
  "\<not> verbose (self w) \<Longrightarrow> stdout (snd (dic_loop env ns (xs, w))) = stdout w"
proof (induction ns arbitrary: xs w)
  case Nil
  show ?case by (simp add: dic_loop_def)
next
  case (Cons n ns)
  obtain ys w' where step: "dic_body env (xs, w) n = (ys, w')"
    by (cases "dic_body env (xs, w) n")
  have s: "self w' = self w"
    using dic_body_self [of env xs w n] step by simp
  have o: "stdout w' = stdout w"
    using dic_body_quiet [OF Cons.prems, of env xs n] step by simp
  have unroll: "dic_loop env (n # ns) (xs, w) = dic_loop env ns (ys, w')"
    by (simp add: dic_loop_def step)
  show ?case
    using Cons.IH [of w' ys] Cons.prems by (simp add: unroll s o)
qed

lemma cv_compare_writes:
  "warn_filters (snd (cv_compare ll v w)) = warn_filters w \<and>
   stdout (snd (cv_compare ll v w)) = stdout w"
  by (simp add: cv_compare_def split: option.splits)

lemma cv_fold_writes:
  "warn_filters (snd (cv_fold env n split v w)) = warn_filters w \<and>
   stdout (snd (cv_fold env n split v w)) = stdout w"
  by (cases split)
     (simp add: cv_fold_def Let_def cv_compare_writes split: sum.splits prod.splits option.splits)

lemma cv_folds_writes:
  "warn_filters (snd (cv_folds env n splits v w)) = warn_filters w \<and>
   stdout (snd (cv_folds env n splits v w)) = stdout w"
proof (induction splits arbitrary: v w)
  case Nil
  show ?case by simp
next
  case (Cons split rest)
  obtain r w1 where st: "cv_fold env n split v w = (r, w1)"
    by (cases "cv_fold env n split v w")
  have "warn_filters w1 = warn_filters w \<and> stdout w1 = stdout w"
    using cv_fold_writes [of env n split v w] st by simp
  with Cons show ?case
    by (simp add: st split: sum.splits)
qed

lemma cv_candidate_writes:
  "warn_filters (snd (cv_candidate env n v w)) = warn_filters w \<and>
   stdout (snd (cv_candidate env n v w)) = stdout w"
  by (simp add: cv_candidate_def Let_def cv_folds_writes split: sum.splits)

lemma cv_loop_writes:
  "warn_filters (snd (cv_loop env ns v w)) = warn_filters w \<and>
   stdout (snd (cv_loop env ns v w)) = stdout w"
proof (induction ns arbitrary: v w)
  case Nil
  show ?case by simp
next
  case (Cons n ns)
  obtain r w1 where st: "cv_candidate env n v w = (r, w1)"
    by (cases "cv_candidate env n v w")
  have "warn_filters w1 = warn_filters w \<and> stdout w1 = stdout w"
    using cv_candidate_writes [of env n v w] st by simp
  with Cons show ?case
    by (simp add: st split: sum.splits)
qed

lemma SelectorBIC_writes:
  "DeprecationWarning \<in> set (warn_filters (snd (SelectorBIC_select env w))) \<and>
   (verbose (self w) \<or> stdout (snd (SelectorBIC_select env w)) = stdout w)"
proof -
  let ?ns = "[min_n_components (self w) .. max_n_components (self w)]"
  let ?w0 = "filterwarnings DeprecationWarning w"
  obtain scores w1 where l: "bic_loop env ?ns ([], ?w0) = (scores, w1)"
    by (cases "bic_loop env ?ns ([], ?w0)")
  have s1: "self w1 = self w"
    using bic_loop_run [of env ?ns "[]" ?w0] l by simp
  have o1: "stdout w1 = stdout w" if "\<not> verbose (self w)"
    using bic_loop_quiet [of ?w0 env ?ns "[]"] l that by simp
  obtain k where sel: "SelectorBIC_select env w = base_model env k w1"
    by (simp add: SelectorBIC_select_def l Let_def)
  have "DeprecationWarning \<in> set (warn_filters (snd (SelectorBIC_select env w)))"
    by (simp add: sel base_model_writes)
  moreover have "stdout (snd (SelectorBIC_select env w)) = stdout w" if "\<not> verbose (self w)"
    using that o1 by (simp add: sel base_model_writes s1)
  ultimately show ?thesis by blast
qed

lemma SelectorDIC_writes:
  "DeprecationWarning \<in> set (warn_filters (snd (SelectorDIC_select env w))) \<and>
   (verbose (self w) \<or> stdout (snd (SelectorDIC_select env w)) = stdout w)"
proof -
  let ?ns = "[min_n_components (self w) .. max_n_components (self w)]"
  let ?w0 = "filterwarnings DeprecationWarning w"
  obtain scores w1 where l: "dic_loop env ?ns ([], ?w0) = (scores, w1)"
    by (cases "dic_loop env ?ns ([], ?w0)")
  have s1: "self w1 = self w"
    using dic_loop_run [of env ?ns "[]" ?w0] l by simp
  have o1: "stdout w1 = stdout w" if "\<not> verbose (self w)"
    using dic_loop_quiet [of ?w0 env ?ns "[]"] l that by simp
  obtain k where sel: "SelectorDIC_select env w = base_model env k w1"
    by (simp add: SelectorDIC_select_def l Let_def)
  have "DeprecationWarning \<in> set (warn_filters (snd (SelectorDIC_select env w)))"
    by (simp add: sel base_model_writes)
  moreover have "stdout (snd (SelectorDIC_select env w)) = stdout w" if "\<not> verbose (self w)"
    using that o1 by (simp add: sel base_model_writes s1)
  ultimately show ?thesis by blast
qed

lemma SelectorCV_writes:
  "Warning \<in> set (warn_filters (snd (SelectorCV_select env w))) \<and>
   (verbose (self w) \<or> stdout (snd (SelectorCV_select env w)) = stdout w)"
proof -
  let ?ns = "[min_n_components (self w) .. max_n_components (self w)]"
  let ?w0 = "filterwarnings Warning w"
  obtain r w1 where l: "cv_loop env ?ns cv_init ?w0 = (r, w1)"
    by (cases "cv_loop env ?ns cv_init ?w0")
  have s1: "self w1 = self w"
    using cv_loop_self [of env ?ns cv_init ?w0] l by simp
  have f1: "warn_filters w1 = Warning # removeAll Warning (warn_filters w)"
    and o1: "stdout w1 = stdout w"
    using cv_loop_writes [of env ?ns cv_init ?w0] l by (simp_all add: filterwarnings_def)
  obtain r2 w2 where b: "base_model env (n_constant (self w)) w1 = (r2, w2)"
    by (cases "base_model env (n_constant (self w)) w1")
  have f2: "Warning \<in> set (warn_filters w2)"
    and o2: "verbose (self w) \<or> stdout w2 = stdout w"
    using base_model_writes [of env "n_constant (self w)" w1] b f1 o1 s1 by auto
  have "Warning \<in> set (warn_filters (snd (SelectorCV_select env w)))"
    using f1 f2 by (simp add: SelectorCV_select_def l s1 b split: sum.splits option.splits)
  moreover have "verbose (self w) \<or> stdout (snd (SelectorCV_select env w)) = stdout w"
    using o1 o2 by (simp add: SelectorCV_select_def l s1 b split: sum.splits option.splits)
  ultimately show ?thesis by blast
qed

section \<open>The claims\<close>

text \<open>
  C4. After the loop of \<^verbatim>\<open>SelectorBIC.select\<close>, the list \<open>bic_scores\<close> holds, in
  ascending order of \<open>n\<close>, one entry for each candidate of the range that was trained
  and scored, and that entry is the specification's \<open>BIC\<close> of the candidate:
  \<open>-2 L + p ln N\<close> with \<open>p = n\<^sup>2 + 2 n d - 1\<close>, \<open>L\<close> the log-likelihood of the word's
  full data under the \<open>n\<close>-state model, \<open>d\<close> the model's feature count and \<open>N\<close> the
  number of rows of the word's matrix. A candidate that could not be trained or scored
  leaves no entry.
\<close>

theorem SelectorBIC_records_BIC:
  "fst (bic_loop env [min_n_components (self w) .. max_n_components (self w)]
          ([], filterwarnings DeprecationWarning w)) =
   List.map_filter (BIC env (self w)) [min_n_components (self w) .. max_n_components (self w)]"
  using bic_loop_run [of env "[min_n_components (self w) .. max_n_components (self w)]" "[]"
      "filterwarnings DeprecationWarning w"]
  by simp

text \<open>
  C5. After the loop of \<^verbatim>\<open>SelectorDIC.select\<close>, the list \<open>dic_scores\<close> holds, in
  ascending order of \<open>n\<close>, one entry for each candidate that was retained, and that
  entry is the specification's \<open>DIC\<close>: the log-likelihood of the word's own data minus
  \<^verbatim>\<open>np.mean\<close> of the log-likelihoods of every other word of the matrix catalog under
  the same model. One other word that cannot be scored removes the whole candidate.
  On finite scores, of which there is at least one, \<^verbatim>\<open>np.mean\<close> is the arithmetic
  mean.
\<close>

theorem SelectorDIC_records_DIC:
  "fst (dic_loop env [min_n_components (self w) .. max_n_components (self w)]
          ([], filterwarnings DeprecationWarning w)) =
     List.map_filter (DIC env (self w)) [min_n_components (self w) .. max_n_components (self w)] \<and>
   (fit env n (random_state (self w)) (X (self w)) (lengths (self w)) = Some m \<and>
    entry \<in> set (other_words (self w)) \<and>
    score env m (fst (snd entry)) (snd (snd entry)) = None \<longrightarrow>
    DIC env (self w) n = None) \<and>
   (xs \<noteq> [] \<longrightarrow> np_mean (map Fin xs) = Fin (sum_list xs / real (length xs)))"
  using dic_loop_run [of env "[min_n_components (self w) .. max_n_components (self w)]" "[]"
      "filterwarnings DeprecationWarning w"]
    DIC_skip [of env n "self w" m entry] np_mean_Fin [of xs]
  by simp

theorem SelectorDIC_records_DIC_witness:
  "fst (dic_loop (stub_env (\<lambda>n. True) peak_at_4) [3 .. 5]
          ([], filterwarnings DeprecationWarning (fresh (one_instance 3 3 5)))) =
     [Fin (- 5), Fin (- 1), Fin (- 3)] \<and>
   DIC (stub_env (\<lambda>n. True) (\<lambda>n x. if x = [[1]] then None else Some (Fin 0)))
     (one_instance 3 3 5) 4 = None \<and>
   np_mean (map Fin [1, 3]) = Fin 2"
proof -
  have a: "List.map_filter (DIC (stub_env (\<lambda>n. True) peak_at_4) (one_instance 3 3 5)) [3 .. 5] =
      [Fin (- 5), Fin (- 1), Fin (- 3)]"
    by (simp add: DIC_def other_words_def stub_env_def one_instance_def peak_at_4_def
          fsub_def np_mean_def np_sum_def)
  have b: "fst (dic_loop (stub_env (\<lambda>n. True) peak_at_4) [3 .. 5]
          ([], filterwarnings DeprecationWarning (fresh (one_instance 3 3 5)))) =
     [Fin (- 5), Fin (- 1), Fin (- 3)]"
    using SelectorDIC_records_DIC [of "stub_env (\<lambda>n. True) peak_at_4" "fresh (one_instance 3 3 5)"]
      a by (simp add: fresh_def one_instance_def)
  have c: "DIC (stub_env (\<lambda>n. True) (\<lambda>n x. if x = [[1]] then None else Some (Fin 0)))
     (one_instance 3 3 5) 4 = None"
    using SelectorDIC_records_DIC [of "stub_env (\<lambda>n. True) (\<lambda>n x. if x = [[1]] then None else Some (Fin 0))"
        "fresh (one_instance 3 3 5)" 4 "\<lparr>n_components = 4, trained_on = [[0]]\<rparr>"
        "(''MARY'', ([[1]], [1]))"]
    by (simp add: fresh_def one_instance_def stub_env_def other_words_def)
  have d: "np_mean (map Fin [1, 3]) = Fin 2"
    using SelectorDIC_records_DIC [of "stub_env (\<lambda>n. True) peak_at_4"
        "fresh (one_instance 3 3 5)" 4 "\<lparr>n_components = 4, trained_on = [[0]]\<rparr>"
        "(''MARY'', ([[1]], [1]))" "[1, 3]"]
    by simp
  show ?thesis using b c d by simp
qed

text \<open>
  C6. In \<^verbatim>\<open>SelectorCV.select\<close> an empty list of fold scores never changes the best
  score or the best model: its mean is \<^verbatim>\<open>nan\<close> and the comparison with the best score
  is false. So when every fold of every candidate fails, the fallback
  \<open>base_model n_constant\<close> is what is returned; and a model that is returned is the
  model of a fold that was trained and scored, with a score above \<^verbatim>\<open>-inf\<close>, or it is
  the fallback.
\<close>

theorem SelectorCV_empty_scores_never_win:
  "cv_compare [] v w = (Inr v, w) \<and>
   ((\<forall>n \<in> set [min_n_components (self w) .. max_n_components (self w)].
       \<forall>split \<in> set (cv_splits (self w)). fold_result env (self w) n split = None) \<longrightarrow>
    fst (SelectorCV_select env w) = Inr (fst (base_model env (n_constant (self w)) w))) \<and>
   (fst (SelectorCV_select env w) = Inr (Some m) \<longrightarrow>
    (\<exists>n \<in> set [min_n_components (self w) .. max_n_components (self w)].
       \<exists>split \<in> set (cv_splits (self w)). \<exists>sc.
         fold_result env (self w) n split = Some (m, sc) \<and> fgt sc NInf) \<or>
    fst (base_model env (n_constant (self w)) w) = Some m)"
proof -
  let ?ns = "[min_n_components (self w) .. max_n_components (self w)]"
  let ?fallback = "fit env (n_constant (self w)) (random_state (self w)) (X (self w))
                     (lengths (self w))"
  obtain u where U: "fst (cv_loop env ?ns cv_init (filterwarnings Warning w)) = Inr u \<and>
       fst (SelectorCV_select env w) =
         Inr (case best_model u of None \<Rightarrow> ?fallback | Some m \<Rightarrow> Some m) \<and>
       (best_model u = None \<or>
        (\<exists>n \<in> set ?ns. \<exists>split \<in> set (cv_splits (self w)). \<exists>m sc.
           fold_result env (self w) n split = Some (m, sc) \<and> fgt sc NInf \<and>
           best_model u = Some m))"
    using SelectorCV_run [of env w] ..
  have res: "fst (SelectorCV_select env w) =
        Inr (case best_model u of None \<Rightarrow> ?fallback | Some m \<Rightarrow> Some m)"
    using U by simp
  have u: "best_model u = None \<or>
        (\<exists>n \<in> set ?ns. \<exists>split \<in> set (cv_splits (self w)). \<exists>m sc.
           fold_result env (self w) n split = Some (m, sc) \<and> fgt sc NInf \<and>
           best_model u = Some m)"
    using U by simp
  have fb: "fst (base_model env (n_constant (self w)) w) = ?fallback"
    by (rule base_model_fst)
  have a: "fst (SelectorCV_select env w) = Inr (fst (base_model env (n_constant (self w)) w))"
    if "\<forall>n \<in> set ?ns. \<forall>split \<in> set (cv_splits (self w)). fold_result env (self w) n split = None"
  proof -
    have "best_model u = None" using u that by fastforce
    then show ?thesis by (simp add: res fb)
  qed
  have b: "(\<exists>n \<in> set ?ns. \<exists>split \<in> set (cv_splits (self w)). \<exists>sc.
         fold_result env (self w) n split = Some (m, sc) \<and> fgt sc NInf) \<or>
      fst (base_model env (n_constant (self w)) w) = Some m"
    if "fst (SelectorCV_select env w) = Inr (Some m)"
  proof (cases "best_model u")
    case None
    then show ?thesis using that res fb by simp
  next
    case (Some m')
    then have "m' = m" using that res by simp
    then show ?thesis using u Some by auto
  qed
  show ?thesis using a b by simp
qed

theorem SelectorCV_empty_scores_never_win_witness:
  "fst (SelectorCV_select (stub_env (\<lambda>n. n < 4) one_good_fold) (fresh (two_instances 3 4 5))) =
     Inr (Some \<lparr>n_components = 3, trained_on = [[0], [1]]\<rparr>) \<and>
   fold_result (stub_env (\<lambda>n. True) one_good_fold) (two_instances 3 2 3) 2 ([1], [0]) =
     Some (\<lparr>n_components = 2, trained_on = [[1]]\<rparr>, Fin 10) \<and>
   fst (SelectorCV_select (stub_env (\<lambda>n. True) one_good_fold) (fresh (two_instances 3 2 3))) =
     Inr (Some \<lparr>n_components = 2, trained_on = [[1]]\<rparr>)"
proof -
  have h: "\<forall>n \<in> set [min_n_components (self (fresh (two_instances 3 4 5))) ..
                      max_n_components (self (fresh (two_instances 3 4 5)))].
       \<forall>split \<in> set (cv_splits (self (fresh (two_instances 3 4 5)))).
         fold_result (stub_env (\<lambda>n. n < 4) one_good_fold) (self (fresh (two_instances 3 4 5)))
           n split = None"
    by (simp add: fresh_def two_instances_def cv_splits_def KFold_split_def fold_sizes_def
          fold_result_def combine_sequences_def stub_env_def)
  have a: "fst (SelectorCV_select (stub_env (\<lambda>n. n < 4) one_good_fold)
              (fresh (two_instances 3 4 5))) =
     Inr (Some \<lparr>n_components = 3, trained_on = [[0], [1]]\<rparr>)"
    using SelectorCV_empty_scores_never_win [of cv_init "fresh (two_instances 3 4 5)"
        "stub_env (\<lambda>n. n < 4) one_good_fold" "\<lparr>n_components = 3, trained_on = [[0], [1]]\<rparr>"] h
    by (simp add: base_model_fst) (simp add: fresh_def two_instances_def stub_env_def)
  have b: "fold_result (stub_env (\<lambda>n. True) one_good_fold) (two_instances 3 2 3) 2 ([1], [0]) =
     Some (\<lparr>n_components = 2, trained_on = [[1]]\<rparr>, Fin 10)"
    by (simp add: two_instances_def fold_result_def combine_sequences_def stub_env_def
          one_good_fold_def)
  have c: "fst (SelectorCV_select (stub_env (\<lambda>n. True) one_good_fold)
              (fresh (two_instances 3 2 3))) =
     Inr (Some \<lparr>n_components = 2, trained_on = [[1]]\<rparr>)"
    by (simp add: run_defs one_good_fold_def SelectorCV_select_def cv_init_def cv_candidate_def
          cv_fold_def cv_compare_def KFold_split_def fold_sizes_def combine_sequences_def)
  show ?thesis using a b c by simp
qed

text \<open>
  C7. For a word with at most one instance sequence, \<^verbatim>\<open>SelectorCV.select\<close> is exactly
  the fallback \<open>base_model n_constant\<close>, run after the warning filter is installed:
  the same result and the same state after it. The log of calls grows by that one
  training call: no fold is split, trained or scored.
\<close>

theorem SelectorCV_single_instance:
  "length (sequences (self w)) \<le> 1 \<Longrightarrow>
   SelectorCV_select env w =
     (case base_model env (n_constant (self w)) (filterwarnings Warning w) of
        (r, w') \<Rightarrow> (Inr r, w')) \<and>
   calls (snd (SelectorCV_select env w)) = calls w @ [Fit (n_constant (self w))]"
proof -
  assume len: "length (sequences (self w)) \<le> 1"
  have eq: "SelectorCV_select env w =
     (case base_model env (n_constant (self w)) (filterwarnings Warning w) of
        (r, w') \<Rightarrow> (Inr r, w'))"
    using len by (rule SelectorCV_skip)
  have "calls (snd (SelectorCV_select env w)) =
        calls (snd (base_model env (n_constant (self w)) (filterwarnings Warning w)))"
    by (simp add: eq split: prod.splits)
  also have "\<dots> = calls w @ [Fit (n_constant (self w))]"
    by (simp add: calls_base_model filterwarnings_def)
  finally show ?thesis using eq by simp
qed

theorem SelectorCV_single_instance_witness:
  "length (sequences (self (fresh (one_instance 3 2 4)))) \<le> 1 \<and>
   fst (SelectorCV_select (stub_env (\<lambda>n. True) peak_at_4) (fresh (one_instance 3 2 4))) =
     Inr (Some \<lparr>n_components = 3, trained_on = [[0]]\<rparr>) \<and>
   calls (snd (SelectorCV_select (stub_env (\<lambda>n. True) peak_at_4) (fresh (one_instance 3 2 4)))) =
     [Fit 3]"
proof -
  have len: "length (sequences (self (fresh (one_instance 3 2 4)))) \<le> 1"
    by (simp add: fresh_def one_instance_def)
  show ?thesis
    using len SelectorCV_single_instance [OF len, of "stub_env (\<lambda>n. True) peak_at_4"]
    by (simp add: run_defs split: prod.splits)
qed

text \<open>
  C9. Two selectors built by \<^verbatim>\<open>__init__\<close> from the same catalogs, word, range,
  \<open>n_constant\<close> and seed return the same model from \<^verbatim>\<open>select()\<close>, for each of the four
  strategies and whatever the rest of the process state is (the warning filters, the
  output so far, the verbosity flags of the two selectors). The trainer and the scorer
  are functions of their arguments, the seed among them: that is the determinism the
  claim assumes. Equal models have equal state counts.
\<close>

theorem select_deterministic:
  assumes "ModelSelector_init ws hws word nc lo hi seed vb1 = Inr s1"
    and "ModelSelector_init ws hws word nc lo hi seed vb2 = Inr s2"
  shows "fst (SelectorConstant_select env (w1\<lparr>self := s1\<rparr>)) =
           fst (SelectorConstant_select env (w2\<lparr>self := s2\<rparr>)) \<and>
         fst (SelectorBIC_select env (w1\<lparr>self := s1\<rparr>)) =
           fst (SelectorBIC_select env (w2\<lparr>self := s2\<rparr>)) \<and>
         fst (SelectorDIC_select env (w1\<lparr>self := s1\<rparr>)) =
           fst (SelectorDIC_select env (w2\<lparr>self := s2\<rparr>)) \<and>
         fst (SelectorCV_select env (w1\<lparr>self := s1\<rparr>)) =
           fst (SelectorCV_select env (w2\<lparr>self := s2\<rparr>))"
proof -
  have s2: "s2 = s1\<lparr>verbose := vb2\<rparr>"
    using assms by (rule ModelSelector_init_verbose)
  have c: "fst (SelectorConstant_select env (w1\<lparr>self := s1\<rparr>)) =
           fst (SelectorConstant_select env (w2\<lparr>self := s2\<rparr>))"
    by (simp add: SelectorConstant_run s2)
  have b: "fst (SelectorBIC_select env (w1\<lparr>self := s1\<rparr>)) =
           fst (SelectorBIC_select env (w2\<lparr>self := s2\<rparr>))"
    by (simp add: SelectorBIC_run s2 cong: sum.case_cong)
  have d: "fst (SelectorDIC_select env (w1\<lparr>self := s1\<rparr>)) =
           fst (SelectorDIC_select env (w2\<lparr>self := s2\<rparr>))"
    by (simp add: SelectorDIC_run s2 cong: sum.case_cong)
  have v: "fst (SelectorCV_select env (w1\<lparr>self := s1\<rparr>)) =
           fst (SelectorCV_select env (w2\<lparr>self := s2\<rparr>))"
    by (rule SelectorCV_fst_cong [where b = vb2]) (simp add: s2)
  show ?thesis using c b d v by simp
qed

theorem select_deterministic_witness:
  "ModelSelector_init [(''JOHN'', [[[0]], [[1]]])] [(''JOHN'', ([[0], [1]], [1, 1]))] ''JOHN''
     3 2 3 14 False = Inr (two_instances 3 2 3) \<and>
   ModelSelector_init [(''JOHN'', [[[0]], [[1]]])] [(''JOHN'', ([[0], [1]], [1, 1]))] ''JOHN''
     3 2 3 14 True = Inr ((two_instances 3 2 3)\<lparr>verbose := True\<rparr>) \<and>
   fst (SelectorCV_select (stub_env (\<lambda>n. True) one_good_fold)
          (fresh ((two_instances 3 2 3)\<lparr>verbose := True\<rparr>))) =
     fst (SelectorCV_select (stub_env (\<lambda>n. True) one_good_fold) (fresh (two_instances 3 2 3))) \<and>
   fst (SelectorBIC_select (stub_env (\<lambda>n. True) one_good_fold)
          (fresh ((two_instances 3 2 3)\<lparr>verbose := True\<rparr>))) =
     fst (SelectorBIC_select (stub_env (\<lambda>n. True) one_good_fold) (fresh (two_instances 3 2 3)))"
proof -
  have i1: "ModelSelector_init [(''JOHN'', [[[0]], [[1]]])] [(''JOHN'', ([[0], [1]], [1, 1]))]
      ''JOHN'' 3 2 3 14 False = Inr (two_instances 3 2 3)"
    by (simp add: ModelSelector_init_def two_instances_def)
  have i2: "ModelSelector_init [(''JOHN'', [[[0]], [[1]]])] [(''JOHN'', ([[0], [1]], [1, 1]))]
      ''JOHN'' 3 2 3 14 True = Inr ((two_instances 3 2 3)\<lparr>verbose := True\<rparr>)"
    by (simp add: ModelSelector_init_def two_instances_def)
  have f1: "(fresh (two_instances 3 2 3))\<lparr>self := two_instances 3 2 3\<rparr> =
      fresh (two_instances 3 2 3)"
    by (simp add: fresh_def)
  have f2: "(fresh (two_instances 3 2 3))\<lparr>self := (two_instances 3 2 3)\<lparr>verbose := True\<rparr>\<rparr> =
      fresh ((two_instances 3 2 3)\<lparr>verbose := True\<rparr>)"
    by (simp add: fresh_def)
  show ?thesis
    using select_deterministic [OF i1 i2, of "stub_env (\<lambda>n. True) one_good_fold"
        "fresh (two_instances 3 2 3)" "fresh (two_instances 3 2 3)"] i1 i2
    by (simp only: f1 f2)
qed

text \<open>
  C10, as stated, fails on the code: \<^verbatim>\<open>select()\<close> writes more than the models it
  creates. Starting with no warning filter, \<^verbatim>\<open>SelectorCV.select\<close> on a word with one
  instance leaves the process-wide filter list holding two \<^verbatim>\<open>ignore\<close> filters; and with
  the verbosity flag set, \<^verbatim>\<open>SelectorConstant.select\<close> prints a line.
\<close>

theorem select_writes_process_state:
  "warn_filters (fresh (one_instance 3 2 4)) = [] \<and>
   warn_filters (snd (SelectorCV_select (stub_env (\<lambda>n. True) peak_at_4)
                        (fresh (one_instance 3 2 4)))) = [DeprecationWarning, Warning] \<and>
   stdout (fresh ((one_instance 3 2 4)\<lparr>verbose := True\<rparr>)) = [] \<and>
   stdout (snd (SelectorConstant_select (stub_env (\<lambda>n. True) peak_at_4)
                  (fresh ((one_instance 3 2 4)\<lparr>verbose := True\<rparr>)))) =
     [ModelCreated ''JOHN'' 3]"
proof -
  have a: "warn_filters (snd (SelectorCV_select (stub_env (\<lambda>n. True) peak_at_4)
                        (fresh (one_instance 3 2 4)))) = [DeprecationWarning, Warning]"
    by (simp add: run_defs SelectorCV_select_def cv_init_def cv_candidate_def)
  have b: "stdout (snd (SelectorConstant_select (stub_env (\<lambda>n. True) peak_at_4)
                  (fresh ((one_instance 3 2 4)\<lparr>verbose := True\<rparr>)))) =
     [ModelCreated ''JOHN'' 3]"
    by (simp add: run_defs SelectorConstant_select_def)
  show ?thesis using a b by (simp add: fresh_def)
qed

text \<open>
  C10, amended. Whatever the strategy, the selector object after \<^verbatim>\<open>select()\<close> is the
  selector object before it: the two catalogs it references and its fields
  \<open>this_word\<close>, \<open>min_n_components\<close>, \<open>max_n_components\<close>, \<open>n_constant\<close> and
  \<open>random_state\<close> (and \<open>sequences\<close>, \<open>X\<close>, \<open>lengths\<close>, \<open>verbose\<close>) are only read.
  Besides the models it creates, a call writes process-wide state: it always leaves
  an \<^verbatim>\<open>ignore\<close> filter in the warning filters (for DeprecationWarning; for every
  warning in SelectorCV), and it prints only when the verbosity flag is set.
\<close>

theorem select_frame:
  "self (snd (SelectorConstant_select env w)) = self w \<and>
   self (snd (SelectorBIC_select env w)) = self w \<and>
   self (snd (SelectorDIC_select env w)) = self w \<and>
   self (snd (SelectorCV_select env w)) = self w \<and>
   DeprecationWarning \<in> set (warn_filters (snd (SelectorConstant_select env w))) \<and>
   DeprecationWarning \<in> set (warn_filters (snd (SelectorBIC_select env w))) \<and>
   DeprecationWarning \<in> set (warn_filters (snd (SelectorDIC_select env w))) \<and>
   Warning \<in> set (warn_filters (snd (SelectorCV_select env w))) \<and>
   (verbose (self w) \<or>
    stdout (snd (SelectorConstant_select env w)) = stdout w \<and>
    stdout (snd (SelectorBIC_select env w)) = stdout w \<and>
    stdout (snd (SelectorDIC_select env w)) = stdout w \<and>
    stdout (snd (SelectorCV_select env w)) = stdout w)"
proof -
  have s: "self (snd (SelectorConstant_select env w)) = self w \<and>
      self (snd (SelectorBIC_select env w)) = self w \<and>
      self (snd (SelectorDIC_select env w)) = self w \<and>
      self (snd (SelectorCV_select env w)) = self w"
    by (simp add: SelectorConstant_run SelectorBIC_run SelectorDIC_run SelectorCV_self)
  have c: "DeprecationWarning \<in> set (warn_filters (snd (SelectorConstant_select env w))) \<and>
      (verbose (self w) \<or> stdout (snd (SelectorConstant_select env w)) = stdout w)"
    by (simp add: SelectorConstant_select_def base_model_writes)
  show ?thesis
    using s c SelectorBIC_writes [of env w] SelectorDIC_writes [of env w]
      SelectorCV_writes [of env w]
    by blast
qed

theorem select_frame_witness:
  "self (snd (SelectorCV_select (stub_env (\<lambda>n. True) one_good_fold)
                (fresh (two_instances 3 2 3)))) = two_instances 3 2 3 \<and>
   Warning \<in> set (warn_filters (snd (SelectorCV_select (stub_env (\<lambda>n. True) one_good_fold)
                                        (fresh (two_instances 3 2 3))))) \<and>
   stdout (snd (SelectorCV_select (stub_env (\<lambda>n. True) one_good_fold)
                  (fresh (two_instances 3 2 3)))) = []"
  using select_frame [of "stub_env (\<lambda>n. True) one_good_fold" "fresh (two_instances 3 2 3)"]
  by (simp add: fresh_def two_instances_def)

text \<open>
  C1. A run of the code where the claim fails. JOHN has one instance of one row, the
  range is 3 to 5 and every candidate trains; the log-likelihoods of JOHN's data are
  \<open>-5\<close>, \<open>-1\<close>, \<open>-3\<close> and MARY's are \<open>0\<close>. The recorded BIC scores are \<open>10\<close>, \<open>2\<close>,
  \<open>6\<close> and the DIC scores \<open>-5\<close>, \<open>-1\<close>, \<open>-3\<close>: the best candidate is \<open>n = 4\<close> for both.
  Both selectors return a model of 3 states: the index 1 of the best entry plus the
  constant 2.
\<close>

theorem select_adds_fixed_offset:
  "List.map_filter (BIC (stub_env (\<lambda>n. True) peak_at_4) (one_instance 3 3 5)) [3 .. 5] =
     [Fin 10, Fin 2, Fin 6] \<and>
   fst (SelectorBIC_select (stub_env (\<lambda>n. True) peak_at_4) (fresh (one_instance 3 3 5))) =
     Some \<lparr>n_components = 3, trained_on = [[0]]\<rparr> \<and>
   List.map_filter (DIC (stub_env (\<lambda>n. True) peak_at_4) (one_instance 3 3 5)) [3 .. 5] =
     [Fin (- 5), Fin (- 1), Fin (- 3)] \<and>
   fst (SelectorDIC_select (stub_env (\<lambda>n. True) peak_at_4) (fresh (one_instance 3 3 5))) =
     Some \<lparr>n_components = 3, trained_on = [[0]]\<rparr>"
proof -
  have a: "List.map_filter (BIC (stub_env (\<lambda>n. True) peak_at_4) (one_instance 3 3 5)) [3 .. 5] =
     [Fin 10, Fin 2, Fin 6]"
    by (simp add: BIC_def stub_env_def one_instance_def peak_at_4_def)
  have b: "fst (SelectorBIC_select (stub_env (\<lambda>n. True) peak_at_4) (fresh (one_instance 3 3 5))) =
     Some \<lparr>n_components = 3, trained_on = [[0]]\<rparr>"
    by (simp add: run_defs peak_at_4_def)
  have c: "List.map_filter (DIC (stub_env (\<lambda>n. True) peak_at_4) (one_instance 3 3 5)) [3 .. 5] =
     [Fin (- 5), Fin (- 1), Fin (- 3)]"
    by (simp add: DIC_def other_words_def stub_env_def one_instance_def peak_at_4_def
          fsub_def np_mean_def np_sum_def)
  have d: "fst (SelectorDIC_select (stub_env (\<lambda>n. True) peak_at_4) (fresh (one_instance 3 3 5))) =
     Some \<lparr>n_components = 3, trained_on = [[0]]\<rparr>"
    by (simp add: run_defs peak_at_4_def)
  show ?thesis using a b c d by simp
qed

text \<open>
  C2. A run of the code where the claim fails. JOHN has two instances, so two folds;
  the range is 2 to 3 and every fold trains. With 2 states the folds score \<open>10\<close> and
  \<open>-100\<close>, with 3 states \<open>0\<close> and \<open>0\<close>: the averages over the folds are \<open>-45\<close> and \<open>0\<close>.
  The code compares each fold's score on its own (the list of scores is emptied at
  every fold), so the first fold of \<open>n = 2\<close> wins and its model is returned.
\<close>

theorem SelectorCV_compares_single_folds:
  "cv_average (stub_env (\<lambda>n. True) one_good_fold) (two_instances 3 2 3) 2 = Some (Fin (- 45)) \<and>
   cv_average (stub_env (\<lambda>n. True) one_good_fold) (two_instances 3 2 3) 3 = Some (Fin 0) \<and>
   fst (SelectorCV_select (stub_env (\<lambda>n. True) one_good_fold) (fresh (two_instances 3 2 3))) =
     Inr (Some \<lparr>n_components = 2, trained_on = [[1]]\<rparr>)"
proof -
  have a: "cv_average (stub_env (\<lambda>n. True) one_good_fold) (two_instances 3 2 3) 2 =
      Some (Fin (- 45))"
    by (simp add: run_defs one_good_fold_def cv_average_def cv_splits_def fold_result_def
          KFold_split_def fold_sizes_def combine_sequences_def)
  have b: "cv_average (stub_env (\<lambda>n. True) one_good_fold) (two_instances 3 2 3) 3 =
      Some (Fin 0)"
    by (simp add: run_defs one_good_fold_def cv_average_def cv_splits_def fold_result_def
          KFold_split_def fold_sizes_def combine_sequences_def)
  have c: "fst (SelectorCV_select (stub_env (\<lambda>n. True) one_good_fold)
              (fresh (two_instances 3 2 3))) =
     Inr (Some \<lparr>n_components = 2, trained_on = [[1]]\<rparr>)"
    by (simp add: run_defs one_good_fold_def SelectorCV_select_def cv_init_def cv_candidate_def
          cv_fold_def cv_compare_def KFold_split_def fold_sizes_def combine_sequences_def)
  show ?thesis using a b c by simp
qed

text \<open>
  C3. A run of the code where the claim fails. The range is 4 to 5 and \<open>n_constant\<close>
  is 3; training succeeds below 4 states only, so every candidate fails and no score
  is recorded. \<open>base_model 3\<close> is the model of 3 states, and SelectorCV returns it.
  SelectorBIC and SelectorDIC train \<open>n_constant + 2 = 5\<close> states instead, which fails,
  and return no model.
\<close>

theorem fallback_adds_fixed_offset:
  "List.map_filter (BIC (stub_env (\<lambda>n. n < 4) rising) (one_instance 3 4 5)) [4 .. 5] = [] \<and>
   List.map_filter (DIC (stub_env (\<lambda>n. n < 4) rising) (one_instance 3 4 5)) [4 .. 5] = [] \<and>
   fst (base_model (stub_env (\<lambda>n. n < 4) rising) 3 (fresh (one_instance 3 4 5))) =
     Some \<lparr>n_components = 3, trained_on = [[0]]\<rparr> \<and>
   fst (SelectorBIC_select (stub_env (\<lambda>n. n < 4) rising) (fresh (one_instance 3 4 5))) = None \<and>
   fst (SelectorDIC_select (stub_env (\<lambda>n. n < 4) rising) (fresh (one_instance 3 4 5))) = None \<and>
   fst (SelectorCV_select (stub_env (\<lambda>n. n < 4) rising) (fresh (one_instance 3 4 5))) =
     Inr (Some \<lparr>n_components = 3, trained_on = [[0]]\<rparr>)"
proof -
  have a: "List.map_filter (BIC (stub_env (\<lambda>n. n < 4) rising) (one_instance 3 4 5)) [4 .. 5] = []"
    by (simp add: BIC_def stub_env_def one_instance_def)
  have b: "List.map_filter (DIC (stub_env (\<lambda>n. n < 4) rising) (one_instance 3 4 5)) [4 .. 5] = []"
    by (simp add: DIC_def other_words_def stub_env_def one_instance_def)
  have c: "fst (base_model (stub_env (\<lambda>n. n < 4) rising) 3 (fresh (one_instance 3 4 5))) =
     Some \<lparr>n_components = 3, trained_on = [[0]]\<rparr>"
    by (simp add: run_defs)
  have d: "fst (SelectorBIC_select (stub_env (\<lambda>n. n < 4) rising) (fresh (one_instance 3 4 5))) =
     None"
    by (simp add: run_defs)
  have e: "fst (SelectorDIC_select (stub_env (\<lambda>n. n < 4) rising) (fresh (one_instance 3 4 5))) =
     None"
    by (simp add: run_defs)
  have f: "fst (SelectorCV_select (stub_env (\<lambda>n. n < 4) rising) (fresh (one_instance 3 4 5))) =
     Inr (Some \<lparr>n_components = 3, trained_on = [[0]]\<rparr>)"
    by (simp add: run_defs SelectorCV_select_def cv_init_def cv_candidate_def)
  show ?thesis using a b c d e f by simp
qed

text \<open>
  C8. A run of the code where the claim fails. The range is 1 to 3 and training
  succeeds below 4 states, so every candidate trains; the BIC scores \<open>-2\<close>, \<open>-4\<close>,
  \<open>-6\<close> are recorded and the best is the last, \<open>n = 3\<close>. The code trains
  \<open>2 + 2 = 4\<close> states, which fails, and \<^verbatim>\<open>select()\<close> returns no model although no
  candidate failed and the fallback \<open>base_model 3\<close> trains.
\<close>

theorem SelectorBIC_returns_no_model:
  "List.map_filter (BIC (stub_env (\<lambda>n. n < 4) rising) (one_instance 3 1 3)) [1 .. 3] =
     [Fin (- 2), Fin (- 4), Fin (- 6)] \<and>
   fst (base_model (stub_env (\<lambda>n. n < 4) rising) 3 (fresh (one_instance 3 1 3))) =
     Some \<lparr>n_components = 3, trained_on = [[0]]\<rparr> \<and>
   fst (SelectorBIC_select (stub_env (\<lambda>n. n < 4) rising) (fresh (one_instance 3 1 3))) = None"
proof -
  have a: "List.map_filter (BIC (stub_env (\<lambda>n. n < 4) rising) (one_instance 3 1 3)) [1 .. 3] =
     [Fin (- 2), Fin (- 4), Fin (- 6)]"
    by (simp add: BIC_def stub_env_def one_instance_def rising_def upto.simps)
  have b: "fst (base_model (stub_env (\<lambda>n. n < 4) rising) 3 (fresh (one_instance 3 1 3))) =
     Some \<lparr>n_components = 3, trained_on = [[0]]\<rparr>"
    by (simp add: run_defs)
  have c: "fst (SelectorBIC_select (stub_env (\<lambda>n. n < 4) rising) (fresh (one_instance 3 1 3))) =
     None"
    by (simp add: run_defs rising_def upto.simps)
  show ?thesis using a b c by simp
qed

end
